theory Spec2Isabelle
  imports Main "HOL-Library.Sublist"
begin

section \<open>Exceptions and data of \<open>ga4gh/vr/extras/dataproxy.py\<close>\<close>

text \<open>
  A Python exception is a value; a call that may raise returns \<open>pyerr + 'a\<close>, with
  \<open>Inl\<close> for the exception. One constructor stands for an exception class together with
  its subclasses, because the only handler of the module,
  \<open>except (ValueError, KeyError, IndexError)\<close>, selects by class: the decoding error of
  \<open>resp.json()\<close> is a \<open>ValueError\<close>, the error of \<open>resp.raise_for_status()\<close> is an
  \<open>HTTPError\<close> carrying the status code, a failure of the transport under
  \<open>requests.get\<close> is a \<open>ConnectionError\<close>, a \<open>TypeError\<close> is what subscripting or
  iterating a value of the wrong shape raises, and \<open>OtherError\<close> is any class that is
  none of the others.

  The specification speaks of four kinds: NotFound is \<open>KeyError\<close>, InvalidArgument is
  \<open>ValueError\<close>, RemoteError is \<open>HTTPError\<close>, NotImplemented is
  \<open>NotImplementedError\<close>.
\<close>

datatype pyerr =
    KeyError string
  | ValueError string
  | IndexError string
  | NotImplementedError string
  | HTTPError int
  | TypeError string
  | ConnectionError string
  | OtherError string

datatype error_kind = NotFound | InvalidArgument | RemoteError | NotImplemented

fun kind_of :: "pyerr \<Rightarrow> error_kind option" where
  "kind_of (KeyError _) = Some NotFound"
| "kind_of (ValueError _) = Some InvalidArgument"
| "kind_of (HTTPError _) = Some RemoteError"
| "kind_of (NotImplementedError _) = Some NotImplemented"
| "kind_of (IndexError _) = None"
| "kind_of (TypeError _) = None"
| "kind_of (ConnectionError _) = None"
| "kind_of (OtherError _) = None"

text \<open>
  The metadata structure of the docstring of \<open>get_metadata\<close>: a dict with the keys
  \<open>length\<close>, \<open>alphabet\<close>, \<open>added\<close> and \<open>aliases\<close>.
\<close>

record metadata =
  md_length :: int
  alphabet :: string
  added :: string
  aliases :: "string list"

text \<open>
  An object of a subclass of \<open>_DataProxy\<close>: its identity and what its two abstract
  methods return when they are called. The backends only read, so a method is a function
  of its arguments; a backend that changes between two calls is a second record with the
  same \<open>obj_id\<close>.
\<close>

record dataproxy =
  obj_id :: nat
  get_metadata :: "string \<Rightarrow> pyerr + metadata"
  get_sequence :: "string \<Rightarrow> int option \<Rightarrow> int option \<Rightarrow> pyerr + string"

text \<open>
  How a caller passes the arguments of \<open>translate_sequence_identifier(self, identifier,
  namespace=None)\<close>. \<open>functools.lru_cache\<close> builds its key from the positional arguments
  followed by the keyword arguments in the order given, so calls that bind the same
  identifier and namespace in different ways have different keys:
  \<open>t(i)\<close>, \<open>t(i, ns)\<close>, \<open>t(i, namespace=ns)\<close>, \<open>t(identifier=i)\<close>,
  \<open>t(identifier=i, namespace=ns)\<close> and \<open>t(namespace=ns, identifier=i)\<close>.
\<close>

datatype call =
    Pos1 string
  | Pos2 string "string option"
  | PosKw string "string option"
  | Kw1 string
  | KwKw string "string option"
  | KwKwRev "string option" string

fun identifier_of :: "call \<Rightarrow> string" where
  "identifier_of (Pos1 i) = i"
| "identifier_of (Pos2 i ns) = i"
| "identifier_of (PosKw i ns) = i"
| "identifier_of (Kw1 i) = i"
| "identifier_of (KwKw i ns) = i"
| "identifier_of (KwKwRev ns i) = i"

fun namespace_of :: "call \<Rightarrow> string option" where
  "namespace_of (Pos1 i) = None"
| "namespace_of (Pos2 i ns) = ns"
| "namespace_of (PosKw i ns) = ns"
| "namespace_of (Kw1 i) = None"
| "namespace_of (KwKw i ns) = ns"
| "namespace_of (KwKwRev ns i) = ns"

text \<open>
  The state threaded through every call: the log of the calls of \<open>get_metadata\<close> and of
  \<open>get_sequence\<close> that were made (object and arguments, oldest first), and the cache of
  \<open>functools.lru_cache\<close>, most recently used entry first. The decorator sits on the
  function in the class body, so there is one cache for all proxy objects, and the key
  holds \<open>self\<close> and the arguments as they were passed.
\<close>

type_synonym cache_key = "nat \<times> call"

record pstate =
  md_calls :: "(nat \<times> string) list"
  seq_calls :: "(nat \<times> string \<times> int option \<times> int option) list"
  lru :: "(cache_key \<times> string list) list"

definition call_get_metadata ::
  "dataproxy \<Rightarrow> string \<Rightarrow> pstate \<Rightarrow> (pyerr + metadata) \<times> pstate" where
  "call_get_metadata dp identifier s =
     (get_metadata dp identifier,
      s\<lparr>md_calls := md_calls s @ [(obj_id dp, identifier)]\<rparr>)"

definition call_get_sequence ::
  "dataproxy \<Rightarrow> string \<Rightarrow> int option \<Rightarrow> int option \<Rightarrow> pstate \<Rightarrow> (pyerr + string) \<times> pstate" where
  "call_get_sequence dp identifier st en s =
     (get_sequence dp identifier st en,
      s\<lparr>seq_calls := seq_calls s @ [(obj_id dp, identifier, st, en)]\<rparr>)"

section \<open>\<open>SequenceProxy\<close>\<close>

record slice =
  start :: "int option"
  stop :: "int option"
  step :: "int option"

datatype key = IntKey int | SliceKey slice

record SequenceProxy =
  sp_dp :: dataproxy
  sp_alias :: string
  sp_md :: metadata

definition SequenceProxy_init ::
  "dataproxy \<Rightarrow> string \<Rightarrow> pstate \<Rightarrow> (pyerr + SequenceProxy) \<times> pstate" where
  "SequenceProxy_init dp a s =
     (case call_get_metadata dp a s of
        (Inl e, s') \<Rightarrow> (Inl e, s')
      | (Inr md, s') \<Rightarrow> (Inr \<lparr>sp_dp = dp, sp_alias = a, sp_md = md\<rparr>, s'))"

definition SequenceProxy_str :: "SequenceProxy \<Rightarrow> pstate \<Rightarrow> (pyerr + string) \<times> pstate" where
  "SequenceProxy_str sp s = call_get_sequence (sp_dp sp) (sp_alias sp) None None s"

definition SequenceProxy_len :: "SequenceProxy \<Rightarrow> pstate \<Rightarrow> int \<times> pstate" where
  "SequenceProxy_len sp s = (md_length (sp_md sp), s)"

definition SequenceProxy_reversed :: "SequenceProxy \<Rightarrow> pstate \<Rightarrow> (pyerr + string) \<times> pstate" where
  "SequenceProxy_reversed sp s =
     (Inl (NotImplementedError ''Reversed iteration of a SequenceProxy is not implemented''), s)"

definition SequenceProxy_getitem ::
  "SequenceProxy \<Rightarrow> key \<Rightarrow> pstate \<Rightarrow> (pyerr + string) \<times> pstate" where
  "SequenceProxy_getitem sp k s =
     (let k' = (case k of
                  IntKey i \<Rightarrow> \<lparr>start = Some i, stop = Some (i + 1), step = None\<rparr>
                | SliceKey sl \<Rightarrow> sl)
      in if step k' \<noteq> None
         then (Inl (ValueError ''Only contiguous sequence slices are supported''), s)
         else call_get_sequence (sp_dp sp) (sp_alias sp) (start k') (stop k') s)"

section \<open>\<open>functools.lru_cache\<close> and \<open>translate_sequence_identifier\<close>\<close>

text \<open>
  \<open>@functools.lru_cache()\<close> is called without arguments, so \<open>maxsize\<close> has its default
  of 128. A hit returns the stored result and makes the entry the most recent one. A miss
  runs the function; an exception leaves the function and stores nothing; a result is
  stored as the most recent entry, and when the cache is full the least recently used
  entry makes room for it.
\<close>

definition maxsize :: nat where
  "maxsize = 128"

definition lru_cache ::
  "(pstate \<Rightarrow> (pyerr + string list) \<times> pstate) \<Rightarrow> cache_key \<Rightarrow> pstate
     \<Rightarrow> (pyerr + string list) \<times> pstate" where
  "lru_cache user_function k s =
     (case map_of (lru s) k of
        Some result \<Rightarrow>
          (Inr result, s\<lparr>lru := (k, result) # filter (\<lambda>e. fst e \<noteq> k) (lru s)\<rparr>)
      | None \<Rightarrow>
          (case user_function s of
             (Inl e, s') \<Rightarrow> (Inl e, s')
           | (Inr result, s') \<Rightarrow>
               (Inr result,
                if map_of (lru s') k \<noteq> None then s'
                else if maxsize \<le> length (lru s')
                then s'\<lparr>lru := (k, result) # butlast (lru s')\<rparr>
                else s'\<lparr>lru := (k, result) # lru s'\<rparr>)))"

text \<open>The classes named by \<open>except (ValueError, KeyError, IndexError)\<close>.\<close>

fun caught :: "pyerr \<Rightarrow> bool" where
  "caught (ValueError _) = True"
| "caught (KeyError _) = True"
| "caught (IndexError _) = True"
| "caught _ = False"

text \<open>
  The function under the decorator. \<open>list(set(xs))\<close> holds every element of \<open>xs\<close> once,
  in an order Python does not fix; \<open>remdups\<close> is one such list, and the statements
  below speak of its elements and of \<open>distinct\<close> only.
\<close>

definition translate_sequence_identifier_wrapped ::
  "dataproxy \<Rightarrow> string \<Rightarrow> string option \<Rightarrow> pstate \<Rightarrow> (pyerr + string list) \<times> pstate" where
  "translate_sequence_identifier_wrapped dp identifier ns s =
     (case call_get_metadata dp identifier s of
        (Inl e, s') \<Rightarrow>
          (if caught e then (Inl (KeyError identifier), s') else (Inl e, s'))
      | (Inr md, s') \<Rightarrow>
          (let als = remdups (aliases md)
           in case ns of
                None \<Rightarrow> (Inr als, s')
              | Some n \<Rightarrow> (let nsd = n @ '':'' in (Inr (filter (prefix nsd) als), s'))))"

definition translate_sequence_identifier ::
  "dataproxy \<Rightarrow> call \<Rightarrow> pstate \<Rightarrow> (pyerr + string list) \<times> pstate" where
  "translate_sequence_identifier dp c =
     lru_cache (translate_sequence_identifier_wrapped dp (identifier_of c) (namespace_of c))
       (obj_id dp, c)"

text \<open>A sequence of calls of \<open>translate_sequence_identifier\<close>, the results dropped.\<close>

fun run :: "(dataproxy \<times> call) list \<Rightarrow> pstate \<Rightarrow> pstate" where
  "run [] s = s"
| "run ((dp, c) # cs) s = run cs (snd (translate_sequence_identifier dp c s))"

text \<open>
  Every cached entry of the proxy is what the function under the decorator returns for
  its key now: the backend has not changed under the cache.
\<close>

definition cache_agrees :: "dataproxy \<Rightarrow> pstate \<Rightarrow> bool" where
  "cache_agrees dp s =
     list_all (\<lambda>(k, v). fst k = obj_id dp \<longrightarrow>
                  fst (translate_sequence_identifier_wrapped dp
                         (identifier_of (snd k)) (namespace_of (snd k)) s)
                    = Inr v)
       (lru s)"

section \<open>\<open>_SeqRepoDataProxyBase\<close> and \<open>SeqRepoDataProxy\<close>\<close>

text \<open>
  What \<open>_get_metadata\<close> returns: the dict literal of the local adapter, or whatever
  \<open>resp.json()\<close> decoded for the REST adapter. \<open>get_metadata\<close> of the base class
  subscripts it with \<open>"aliases"\<close> and iterates the entry, and the shapes are kept apart
  by what these two steps do: a value that is not a dict (a JSON array, string, number or
  null), where the subscript raises \<open>TypeError\<close>; a dict without the key, such as \<open>{}\<close>,
  where it raises \<open>KeyError('aliases')\<close>; a dict whose entry is \<open>null\<close> or a number, where
  the iteration raises \<open>TypeError\<close>; and a dict with the entries of the docstring, the
  aliases a list of strings.
\<close>

datatype decoded =
    NotADict
  | NoAliases
  | AliasesNotIterable
  | Record metadata

definition SeqRepoDataProxyBase_get_metadata ::
  "(string \<Rightarrow> pyerr + decoded) \<Rightarrow> string \<Rightarrow> pyerr + metadata" where
  "SeqRepoDataProxyBase_get_metadata priv_get_metadata identifier =
     (case priv_get_metadata identifier of
        Inl e \<Rightarrow> Inl e
      | Inr NotADict \<Rightarrow> Inl (TypeError ''indices must be integers'')
      | Inr NoAliases \<Rightarrow> Inl (KeyError ''aliases'')
      | Inr AliasesNotIterable \<Rightarrow> Inl (TypeError ''object is not iterable'')
      | Inr (Record md) \<Rightarrow> Inr (md\<lparr>aliases := map (\<lambda>a. a) (aliases md)\<rparr>))"

definition SeqRepoDataProxyBase_get_sequence ::
  "(string \<Rightarrow> int option \<Rightarrow> int option \<Rightarrow> pyerr + string)
     \<Rightarrow> string \<Rightarrow> int option \<Rightarrow> int option \<Rightarrow> pyerr + string" where
  "SeqRepoDataProxyBase_get_sequence priv_get_sequence identifier st en =
     priv_get_sequence identifier st en"

text \<open>
  The handle \<open>sr\<close> of a local SeqRepo, as far as the adapter uses it: \<open>sr.fetch\<close>, the
  rows of the cursor of \<open>sr.aliases.find_aliases\<close>, \<open>sr.sequences.fetch_seqinfo\<close> and
  the rows of \<open>sr.aliases.fetch_aliases\<close>. Each may raise.
\<close>

record alias_row =
  row_seq_id :: string
  row_namespace :: string
  row_alias :: string

record seqinfo =
  si_len :: int
  si_alpha :: string
  si_added :: int

record seqrepo =
  fetch :: "string \<Rightarrow> int option \<Rightarrow> int option \<Rightarrow> pyerr + string"
  find_aliases :: "string \<Rightarrow> string \<Rightarrow> pyerr + alias_row list"
  fetch_seqinfo :: "string \<Rightarrow> pyerr + seqinfo"
  fetch_aliases :: "string \<Rightarrow> pyerr + alias_row list"

text \<open>
  The two imported functions, \<open>bioutils.accessions.coerce_namespace\<close> and
  \<open>.utils.isoformat\<close>, are parameters of the adapter.
\<close>

record module_imports =
  coerce_namespace :: "string \<Rightarrow> pyerr + string"
  isoformat :: "int \<Rightarrow> string"

text \<open>\<open>s.split(sep, maxsplit)\<close>: at most \<open>maxsplit\<close> cuts, so at most \<open>maxsplit + 1\<close> parts.\<close>

fun str_split :: "char \<Rightarrow> nat \<Rightarrow> string \<Rightarrow> string list" where
  "str_split sep 0 s = [s]"
| "str_split sep (Suc n) s =
     (if sep \<in> set s
      then takeWhile (\<lambda>c. c \<noteq> sep) s # str_split sep n (tl (dropWhile (\<lambda>c. c \<noteq> sep) s))
      else [s])"

definition SeqRepoDataProxy_priv_get_sequence ::
  "seqrepo \<Rightarrow> string \<Rightarrow> int option \<Rightarrow> int option \<Rightarrow> pyerr + string" where
  "SeqRepoDataProxy_priv_get_sequence sr identifier st en = fetch sr identifier st en"

text \<open>
  \<open>ns, a = coerce_namespace(identifier).split(":", 2)\<close> unpacks into two names: a list of
  any other length is the \<open>ValueError\<close> of unpacking. \<open>fetchone()\<close> is the first row of
  the cursor, or \<open>None\<close>.
\<close>

definition SeqRepoDataProxy_priv_get_metadata ::
  "module_imports \<Rightarrow> seqrepo \<Rightarrow> string \<Rightarrow> pyerr + decoded" where
  "SeqRepoDataProxy_priv_get_metadata im sr identifier =
     (case coerce_namespace im identifier of
        Inl e \<Rightarrow> Inl e
      | Inr c \<Rightarrow>
         (case str_split CHR '':'' 2 c of
            [ns, a] \<Rightarrow>
              (case find_aliases sr ns a of
                 Inl e \<Rightarrow> Inl e
               | Inr [] \<Rightarrow> Inl (KeyError identifier)
               | Inr (r # _) \<Rightarrow>
                  (case fetch_seqinfo sr (row_seq_id r) of
                     Inl e \<Rightarrow> Inl e
                   | Inr si \<Rightarrow>
                      (case fetch_aliases sr (row_seq_id r) of
                         Inl e \<Rightarrow> Inl e
                       | Inr rows \<Rightarrow>
                           Inr (Record
                             \<lparr>md_length = si_len si,
                              alphabet = si_alpha si,
                              added = isoformat im (si_added si),
                              aliases = map (\<lambda>a. row_namespace a @ '':'' @ row_alias a) rows\<rparr>))))
          | [_] \<Rightarrow> Inl (ValueError ''not enough values to unpack (expected 2, got 1)'')
          | _ \<Rightarrow> Inl (ValueError ''too many values to unpack (expected 2)'')))"

definition SeqRepoDataProxy :: "nat \<Rightarrow> module_imports \<Rightarrow> seqrepo \<Rightarrow> dataproxy" where
  "SeqRepoDataProxy oid im sr =
     \<lparr>obj_id = oid,
      get_metadata = SeqRepoDataProxyBase_get_metadata (SeqRepoDataProxy_priv_get_metadata im sr),
      get_sequence = SeqRepoDataProxyBase_get_sequence (SeqRepoDataProxy_priv_get_sequence sr)\<rparr>"

section \<open>\<open>SeqRepoRESTDataProxy\<close>\<close>

text \<open>
  \<open>requests.get(url, params)\<close> either raises (the transport failed) or returns a
  response, of which the adapter reads \<open>status_code\<close>, \<open>text\<close> (here \<open>resp_text\<close>) and \<open>json()\<close>; \<open>json()\<close>
  raises a \<open>ValueError\<close> when the body does not decode. \<open>raise_for_status()\<close> raises
  \<open>HTTPError\<close> for the client and server error codes, 400 to 599, and returns for every
  other code.
\<close>

record response =
  status_code :: int
  resp_text :: string
  json :: "pyerr + decoded"

type_synonym requests_get = "string \<Rightarrow> (string \<times> int option) list \<Rightarrow> pyerr + response"

definition raise_for_status :: "response \<Rightarrow> pyerr option" where
  "raise_for_status resp =
     (if 400 \<le> status_code resp \<and> status_code resp < 600
      then Some (HTTPError (status_code resp)) else None)"

definition rest_version :: string where
  "rest_version = ''1''"

definition SeqRepoRESTDataProxy_base_url :: "string \<Rightarrow> string" where
  "SeqRepoRESTDataProxy_base_url base_url = base_url @ ''/'' @ rest_version @ ''/''"

definition SeqRepoRESTDataProxy_priv_get_sequence ::
  "requests_get \<Rightarrow> string \<Rightarrow> string \<Rightarrow> int option \<Rightarrow> int option \<Rightarrow> pyerr + string" where
  "SeqRepoRESTDataProxy_priv_get_sequence rget base identifier st en =
     (let url = base @ ''sequence/'' @ identifier;
          params = [(''start'', st), (''end'', en)]
      in case rget url params of
           Inl e \<Rightarrow> Inl e
         | Inr resp \<Rightarrow>
             if status_code resp = 404 then Inl (KeyError identifier)
             else (case raise_for_status resp of
                     Some e \<Rightarrow> Inl e
                   | None \<Rightarrow> Inr (resp_text resp)))"

definition SeqRepoRESTDataProxy_priv_get_metadata ::
  "requests_get \<Rightarrow> string \<Rightarrow> string \<Rightarrow> pyerr + decoded" where
  "SeqRepoRESTDataProxy_priv_get_metadata rget base identifier =
     (let url = base @ ''metadata/'' @ identifier
      in case rget url [] of
           Inl e \<Rightarrow> Inl e
         | Inr resp \<Rightarrow>
             if status_code resp = 404 then Inl (KeyError identifier)
             else (case raise_for_status resp of
                     Some e \<Rightarrow> Inl e
                   | None \<Rightarrow> json resp))"

definition SeqRepoRESTDataProxy :: "nat \<Rightarrow> requests_get \<Rightarrow> string \<Rightarrow> dataproxy" where
  "SeqRepoRESTDataProxy oid rget base_url =
     \<lparr>obj_id = oid,
      get_metadata = SeqRepoDataProxyBase_get_metadata
        (SeqRepoRESTDataProxy_priv_get_metadata rget (SeqRepoRESTDataProxy_base_url base_url)),
      get_sequence = SeqRepoDataProxyBase_get_sequence
        (SeqRepoRESTDataProxy_priv_get_sequence rget (SeqRepoRESTDataProxy_base_url base_url))\<rparr>"

section \<open>Test doubles\<close>

text \<open>
  The state before any call, and a proxy double that knows every identifier. The
  identifiers \<open>filler n\<close> are pairwise different and different from \<open>q\<close>.
\<close>

definition empty_state :: pstate where
  "empty_state = \<lparr>md_calls = [], seq_calls = [], lru = []\<rparr>"

definition stub_dp :: dataproxy where
  "stub_dp =
     \<lparr>obj_id = 0,
      get_metadata = (\<lambda>i. Inr \<lparr>md_length = 1, alphabet = ''ACGT'', added = [],
                                  aliases = [''stub:'' @ i]\<rparr>),
      get_sequence = (\<lambda>i st en. Inr ''A'')\<rparr>"

definition filler :: "nat \<Rightarrow> string" where
  "filler n = replicate (Suc n) CHR ''a''"

definition fillers :: "(dataproxy \<times> call) list" where
  "fillers = map (\<lambda>n. (stub_dp, Pos2 (filler n) None)) [0..<maxsize]"

definition entry :: "nat \<Rightarrow> cache_key \<times> string list" where
  "entry n = ((0, Pos2 (filler n) None), [''stub:'' @ filler n])"

text \<open>
  The sequence of the docstrings, in a local SeqRepo and behind a REST service. The
  stand-in for \<open>coerce_namespace\<close> leaves an identifier with a colon as it is, infers
  \<open>refseq\<close> for \<open>NM_\<close> accessions and raises \<open>ValueError\<close> otherwise. The service
  answers 500 for \<open>crash\<close>, 304 with an empty body for \<open>stale\<close>, 200 with the body \<open>{}\<close>
  for the metadata of \<open>empty\<close> and 404 for what it does not know.
\<close>

definition demo_md :: metadata where
  "demo_md =
     \<lparr>md_length = 4560, alphabet = ''ACGT'', added = ''2016-08-24T05:03:11Z'',
      aliases = [''RefSeq:NM_000551.3'', ''refseq:NM_000551.3'',
                 ''ga4gh:SQ.v_QTc1p-MUYdgrRv4LMT6ByXIOsdw3C_'', ''gi:319655736'',
                 ''refseq:NM_000551.3'']\<rparr>"

definition demo_rows :: "alias_row list" where
  "demo_rows =
     [\<lparr>row_seq_id = ''v_QTc1p'', row_namespace = ''refseq'', row_alias = ''NM_000551.3''\<rparr>,
      \<lparr>row_seq_id = ''v_QTc1p'', row_namespace = ''ga4gh'',
       row_alias = ''SQ.v_QTc1p-MUYdgrRv4LMT6ByXIOsdw3C_''\<rparr>]"

definition demo_sr :: seqrepo where
  "demo_sr =
     \<lparr>fetch = (\<lambda>i st en. if i = ''NM_000551.3'' \<or> i = ''refseq:NM_000551.3''
                          then Inr ''CCTCGCCTCC'' else Inl (KeyError i)),
      find_aliases =
        (\<lambda>ns a. Inr (filter (\<lambda>r. row_namespace r = ns \<and> row_alias r = a) demo_rows)),
      fetch_seqinfo =
        (\<lambda>sid. if sid = ''v_QTc1p''
                then Inr \<lparr>si_len = 4560, si_alpha = ''ACGT'', si_added = 1472014991\<rparr>
                else Inl (KeyError sid)),
      fetch_aliases = (\<lambda>sid. Inr (filter (\<lambda>r. row_seq_id r = sid) demo_rows))\<rparr>"

definition demo_im :: module_imports where
  "demo_im =
     \<lparr>coerce_namespace =
        (\<lambda>ac. if CHR '':'' \<in> set ac then Inr ac
               else if prefix ''NM_'' ac then Inr (''refseq:'' @ ac)
               else Inl (ValueError (''Could not infer namespace for '' @ ac))),
      isoformat = (\<lambda>t. ''2016-08-24T05:03:11Z'')\<rparr>"

definition demo_server :: requests_get where
  "demo_server url params =
     (if url = ''http://localhost:5000/seqrepo/1/sequence/NM_000551.3''
      then Inr \<lparr>status_code = 200, resp_text = ''CCTCGCCTCC'',
                 json = Inl (ValueError ''Expecting value'')\<rparr>
      else if url = ''http://localhost:5000/seqrepo/1/metadata/NM_000551.3''
      then Inr \<lparr>status_code = 200, resp_text = ''{}'', json = Inr (Record demo_md)\<rparr>
      else if url = ''http://localhost:5000/seqrepo/1/metadata/broken''
      then Inr \<lparr>status_code = 200, resp_text = [], json = Inl (ValueError ''Expecting value'')\<rparr>
      else if url = ''http://localhost:5000/seqrepo/1/metadata/empty''
      then Inr \<lparr>status_code = 200, resp_text = ''{}'', json = Inr NoAliases\<rparr>
      else if url = ''http://localhost:5000/seqrepo/1/sequence/stale''
            \<or> url = ''http://localhost:5000/seqrepo/1/metadata/stale''
      then Inr \<lparr>status_code = 304, resp_text = [], json = Inl (ValueError ''Expecting value'')\<rparr>
      else if url = ''http://localhost:5000/seqrepo/1/sequence/crash''
            \<or> url = ''http://localhost:5000/seqrepo/1/metadata/crash''
      then Inr \<lparr>status_code = 500, resp_text = ''Internal Server Error'',
                 json = Inl (ValueError ''Expecting value'')\<rparr>
      else Inr \<lparr>status_code = 404, resp_text = ''Not Found'',
                 json = Inl (ValueError ''Expecting value'')\<rparr>)"

definition unreachable :: requests_get where
  "unreachable url params = Inl (ConnectionError ''Connection refused'')"

text \<open>
  A double that knows the sequence of the docstrings only, with the first ten residues
  as its content, and the same object after \<open>NM_000552.4\<close> has been registered with its
  backend. \<open>substring\<close> is the range \<open>[st, en)\<close> for bounds that are not negative.
\<close>

definition substring :: "string \<Rightarrow> int option \<Rightarrow> int option \<Rightarrow> string" where
  "substring sq st en =
     (let a = (case st of None \<Rightarrow> 0 | Some x \<Rightarrow> nat x);
          b = (case en of None \<Rightarrow> length sq | Some y \<Rightarrow> nat y)
      in take (b - a) (drop a sq))"

definition docstring_dp :: dataproxy where
  "docstring_dp =
     \<lparr>obj_id = 1,
      get_metadata = (\<lambda>i. if i = ''NM_000551.3'' then Inr demo_md else Inl (KeyError i)),
      get_sequence = (\<lambda>i st en. if i = ''NM_000551.3'' then Inr (substring ''CCTCGCCTCC'' st en)
                                  else Inl (KeyError i))\<rparr>"

definition registered_dp :: dataproxy where
  "registered_dp =
     docstring_dp\<lparr>get_metadata :=
       (\<lambda>i. if i = ''NM_000552.4''
             then Inr \<lparr>md_length = 100, alphabet = ''ACGT'', added = ''2020-01-01T00:00:00Z'',
                        aliases = [''refseq:NM_000552.4'']\<rparr>
             else get_metadata docstring_dp i)\<rparr>"

section \<open>The position of a cached entry\<close>

text \<open>
  \<open>held k r j c\<close>: the cache \<open>c\<close> holds \<open>r\<close> for the key \<open>k\<close>, with at most \<open>j\<close>
  entries used more recently.
\<close>

definition held ::
  "cache_key \<Rightarrow> string list \<Rightarrow> nat \<Rightarrow> (cache_key \<times> string list) list \<Rightarrow> bool" where
  "held k r j c =
     (\<exists>pre post. c = pre @ (k, r) # post \<and> k \<notin> fst ` set pre \<and> length pre \<le> j)"

section \<open>Indexing a \<open>SequenceProxy\<close>\<close>

lemma seq_calls_append_neq: "s \<noteq> s\<lparr>seq_calls := seq_calls s @ [x]\<rparr>"
proof
  assume eq: "s = s\<lparr>seq_calls := seq_calls s @ [x]\<rparr>"
  have "seq_calls s = seq_calls (s\<lparr>seq_calls := seq_calls s @ [x]\<rparr>)"
    by (rule arg_cong [OF eq])
  then show False by simp
qed

text \<open>
  Claim C7. For a sequence proxy \<open>sp\<close> bound to a data proxy \<open>dp\<close> and an identifier: the
  slice \<open>sp[a:b]\<close> without a step returns what \<open>dp.get_sequence(identifier, a, b)\<close>
  returns, value or exception, and makes exactly that one call; \<open>sp[i]\<close> is \<open>sp[i:i+1]\<close>,
  so it returns what \<open>dp.get_sequence(identifier, i, i + 1)\<close> returns; a slice with a
  step other than 1, such as \<open>sp[a:b:2]\<close>, fails with \<open>ValueError\<close> (InvalidArgument) and
  calls nothing; \<open>reversed(sp)\<close> fails with \<open>NotImplementedError\<close>.
\<close>

theorem getitem_contract:
  "SequenceProxy_getitem sp (SliceKey \<lparr>start = a, stop = b, step = None\<rparr>) s
     = (get_sequence (sp_dp sp) (sp_alias sp) a b,
        s\<lparr>seq_calls := seq_calls s @ [(obj_id (sp_dp sp), sp_alias sp, a, b)]\<rparr>)
   \<and> SequenceProxy_getitem sp (IntKey i) s
     = SequenceProxy_getitem sp (SliceKey \<lparr>start = Some i, stop = Some (i + 1), step = None\<rparr>) s
   \<and> SequenceProxy_getitem sp (IntKey i) s
     = (get_sequence (sp_dp sp) (sp_alias sp) (Some i) (Some (i + 1)),
        s\<lparr>seq_calls := seq_calls s @ [(obj_id (sp_dp sp), sp_alias sp, Some i, Some (i + 1))]\<rparr>)
   \<and> (n \<noteq> 1 \<longrightarrow>
        (\<exists>m. SequenceProxy_getitem sp (SliceKey \<lparr>start = a, stop = b, step = Some n\<rparr>) s
               = (Inl (ValueError m), s)))
   \<and> (\<exists>m. SequenceProxy_reversed sp s = (Inl (NotImplementedError m), s))"
  by (simp add: SequenceProxy_getitem_def SequenceProxy_reversed_def call_get_sequence_def)

theorem getitem_contract_witness:
  "(2::int) \<noteq> 1
   \<and> SequenceProxy_getitem \<lparr>sp_dp = docstring_dp, sp_alias = ''NM_000551.3'', sp_md = demo_md\<rparr>
        (SliceKey \<lparr>start = Some 2, stop = Some 5, step = None\<rparr>) empty_state
       = (Inr ''TCG'',
          \<lparr>md_calls = [], seq_calls = [(1, ''NM_000551.3'', Some 2, Some 5)], lru = []\<rparr>)
   \<and> fst (SequenceProxy_getitem
             \<lparr>sp_dp = docstring_dp, sp_alias = ''NM_000551.3'', sp_md = demo_md\<rparr>
             (IntKey 3) empty_state) = Inr ''C''
   \<and> (\<exists>m. SequenceProxy_getitem
              \<lparr>sp_dp = docstring_dp, sp_alias = ''NM_000551.3'', sp_md = demo_md\<rparr>
              (SliceKey \<lparr>start = Some 2, stop = Some 5, step = Some 2\<rparr>) empty_state
           = (Inl (ValueError m), empty_state))"
proof -
  let ?sp = "\<lparr>sp_dp = docstring_dp, sp_alias = ''NM_000551.3'', sp_md = demo_md\<rparr>"
  note c = getitem_contract [of ?sp "Some 2" "Some 5" empty_state 3 2]
  have h: "(2::int) \<noteq> 1" by simp
  have g1: "get_sequence docstring_dp ''NM_000551.3'' (Some 2) (Some 5) = Inr ''TCG''"
    by (simp add: docstring_dp_def substring_def)
  have g2: "get_sequence docstring_dp ''NM_000551.3'' (Some 3) (Some (3 + 1)) = Inr ''C''"
    by (simp add: docstring_dp_def substring_def)
  have o: "obj_id docstring_dp = 1" by (simp add: docstring_dp_def)
  from c have "SequenceProxy_getitem ?sp
                 (SliceKey \<lparr>start = Some 2, stop = Some 5, step = None\<rparr>) empty_state
      = (get_sequence (sp_dp ?sp) (sp_alias ?sp) (Some 2) (Some 5),
         empty_state\<lparr>seq_calls := seq_calls empty_state
            @ [(obj_id (sp_dp ?sp), sp_alias ?sp, Some 2, Some 5)]\<rparr>)"
    by blast
  then have r1: "SequenceProxy_getitem ?sp
                 (SliceKey \<lparr>start = Some 2, stop = Some 5, step = None\<rparr>) empty_state
       = (Inr ''TCG'',
          \<lparr>md_calls = [], seq_calls = [(1, ''NM_000551.3'', Some 2, Some 5)], lru = []\<rparr>)"
    by (simp add: g1 o empty_state_def)
  from c have "SequenceProxy_getitem ?sp (IntKey 3) empty_state
      = (get_sequence (sp_dp ?sp) (sp_alias ?sp) (Some 3) (Some (3 + 1)),
         empty_state\<lparr>seq_calls := seq_calls empty_state
            @ [(obj_id (sp_dp ?sp), sp_alias ?sp, Some 3, Some (3 + 1))]\<rparr>)"
    by blast
  then have r2: "fst (SequenceProxy_getitem ?sp (IntKey 3) empty_state) = Inr ''C''"
    using g2 by simp
  from c h have r3: "\<exists>m. SequenceProxy_getitem ?sp
              (SliceKey \<lparr>start = Some 2, stop = Some 5, step = Some 2\<rparr>) empty_state
           = (Inl (ValueError m), empty_state)"
    by blast
  from h r1 r2 r3 show ?thesis by blast
qed

text \<open>
  Claim C10. Every slice whose step is given fails with \<open>ValueError\<close> (InvalidArgument),
  the unit step included: \<open>sp[a:b:1]\<close> is rejected although it denotes the range of
  \<open>sp[a:b]\<close>. A slice is accepted, that is handed to \<open>get_sequence\<close>, exactly when its
  step is \<open>None\<close>.
\<close>

theorem getitem_rejects_every_step:
  "SequenceProxy_getitem sp (SliceKey \<lparr>start = a, stop = b, step = Some n\<rparr>) s
     = (Inl (ValueError ''Only contiguous sequence slices are supported''), s)
   \<and> SequenceProxy_getitem sp (SliceKey \<lparr>start = a, stop = b, step = Some 1\<rparr>) s
     \<noteq> SequenceProxy_getitem sp (SliceKey \<lparr>start = a, stop = b, step = None\<rparr>) s
   \<and> (SequenceProxy_getitem sp (SliceKey sl) s
        = call_get_sequence (sp_dp sp) (sp_alias sp) (start sl) (stop sl) s
      \<longleftrightarrow> step sl = None)"
  by (cases "step sl")
    (auto simp: SequenceProxy_getitem_def call_get_sequence_def seq_calls_append_neq)

section \<open>Constructing a \<open>SequenceProxy\<close>\<close>

text \<open>
  Claim C8. The constructor of \<open>SequenceProxy\<close> calls \<open>get_metadata\<close> of the data proxy
  exactly once, with the alias, and never \<open>get_sequence\<close>. When that call raises, for
  instance \<open>KeyError\<close> for an unknown identifier, the constructor raises the same
  exception. When it returns a record, the proxy keeps it, and \<open>__len__\<close> returns its
  \<open>length\<close> field and leaves the state, and so both call logs, as they are.
\<close>

theorem construction_fetches_metadata_once:
  "snd (SequenceProxy_init dp a s) = s\<lparr>md_calls := md_calls s @ [(obj_id dp, a)]\<rparr>
   \<and> seq_calls (snd (SequenceProxy_init dp a s)) = seq_calls s
   \<and> (get_metadata dp a = Inl e \<longrightarrow> fst (SequenceProxy_init dp a s) = Inl e)
   \<and> (get_metadata dp a = Inr md \<longrightarrow>
        (\<exists>sp. fst (SequenceProxy_init dp a s) = Inr sp
           \<and> sp_md sp = md
           \<and> SequenceProxy_len sp (snd (SequenceProxy_init dp a s))
               = (md_length md, snd (SequenceProxy_init dp a s))))"
  by (cases "get_metadata dp a")
     (simp_all add: SequenceProxy_init_def call_get_metadata_def SequenceProxy_len_def)

theorem construction_fetches_metadata_once_witness:
  "get_metadata docstring_dp ''NM_000551.3'' = Inr demo_md
   \<and> get_metadata docstring_dp ''no-such-id'' = Inl (KeyError ''no-such-id'')
   \<and> fst (SequenceProxy_init docstring_dp ''no-such-id'' empty_state) = Inl (KeyError ''no-such-id'')
   \<and> (\<exists>sp. fst (SequenceProxy_init docstring_dp ''NM_000551.3'' empty_state) = Inr sp
         \<and> fst (SequenceProxy_len sp (snd (SequenceProxy_init docstring_dp ''NM_000551.3'' empty_state)))
             = 4560)"
proof -
  have h1: "get_metadata docstring_dp ''NM_000551.3'' = Inr demo_md"
    by (simp add: docstring_dp_def)
  have h2: "get_metadata docstring_dp ''no-such-id'' = Inl (KeyError ''no-such-id'')"
    by (simp add: docstring_dp_def)
  from construction_fetches_metadata_once
         [of docstring_dp "''no-such-id''" empty_state "KeyError ''no-such-id''"] h2
  have c1: "fst (SequenceProxy_init docstring_dp ''no-such-id'' empty_state)
              = Inl (KeyError ''no-such-id'')"
    by blast
  from construction_fetches_metadata_once
         [of docstring_dp "''NM_000551.3''" empty_state _ demo_md] h1
  obtain sp where "fst (SequenceProxy_init docstring_dp ''NM_000551.3'' empty_state) = Inr sp"
    and "SequenceProxy_len sp (snd (SequenceProxy_init docstring_dp ''NM_000551.3'' empty_state))
           = (md_length demo_md, snd (SequenceProxy_init docstring_dp ''NM_000551.3'' empty_state))"
    by blast
  then have "\<exists>sp. fst (SequenceProxy_init docstring_dp ''NM_000551.3'' empty_state) = Inr sp
         \<and> fst (SequenceProxy_len sp (snd (SequenceProxy_init docstring_dp ''NM_000551.3'' empty_state)))
             = 4560"
    by (auto simp: demo_md_def)
  with h1 h2 c1 show ?thesis by blast
qed

section \<open>The cache of \<open>translate_sequence_identifier\<close>\<close>

lemma wrapped_snd:
  "snd (translate_sequence_identifier_wrapped dp i ns s)
     = s\<lparr>md_calls := md_calls s @ [(obj_id dp, i)]\<rparr>"
  by (simp add: translate_sequence_identifier_wrapped_def call_get_metadata_def Let_def
           split: sum.splits option.splits)

lemma wrapped_fst_indep:
  "fst (translate_sequence_identifier_wrapped dp i ns s)
     = fst (translate_sequence_identifier_wrapped dp i ns s')"
  by (simp add: translate_sequence_identifier_wrapped_def call_get_metadata_def Let_def
           split: sum.splits option.splits)

lemma translate_hit:
  assumes "map_of (lru s) (obj_id dp, cl) = Some v"
  shows "translate_sequence_identifier dp cl s
           = (Inr v, s\<lparr>lru := ((obj_id dp, cl), v)
                            # filter (\<lambda>e. fst e \<noteq> (obj_id dp, cl)) (lru s)\<rparr>)"
  using assms by (simp add: translate_sequence_identifier_def lru_cache_def)

lemma translate_miss_fail:
  assumes "map_of (lru s) (obj_id dp, cl) = None"
    and "fst (translate_sequence_identifier_wrapped dp (identifier_of cl) (namespace_of cl) s) = Inl e"
  shows "translate_sequence_identifier dp cl s
           = (Inl e, s\<lparr>md_calls := md_calls s @ [(obj_id dp, identifier_of cl)]\<rparr>)"
proof -
  have "translate_sequence_identifier_wrapped dp (identifier_of cl) (namespace_of cl) s
          = (Inl e, s\<lparr>md_calls := md_calls s @ [(obj_id dp, identifier_of cl)]\<rparr>)"
    using assms(2) wrapped_snd [of dp "identifier_of cl" "namespace_of cl" s] by (simp add: prod_eq_iff)
  with assms(1) show ?thesis
    by (simp add: translate_sequence_identifier_def lru_cache_def)
qed

lemma translate_miss_ok:
  assumes "map_of (lru s) (obj_id dp, cl) = None"
    and "fst (translate_sequence_identifier_wrapped dp (identifier_of cl) (namespace_of cl) s) = Inr v"
  shows "translate_sequence_identifier dp cl s
           = (Inr v, s\<lparr>md_calls := md_calls s @ [(obj_id dp, identifier_of cl)],
                        lru := ((obj_id dp, cl), v)
                            # (if maxsize \<le> length (lru s) then butlast (lru s) else lru s)\<rparr>)"
proof -
  have "translate_sequence_identifier_wrapped dp (identifier_of cl) (namespace_of cl) s
          = (Inr v, s\<lparr>md_calls := md_calls s @ [(obj_id dp, identifier_of cl)]\<rparr>)"
    using assms(2) wrapped_snd [of dp "identifier_of cl" "namespace_of cl" s] by (simp add: prod_eq_iff)
  with assms(1) show ?thesis
    by (simp add: translate_sequence_identifier_def lru_cache_def)
qed

lemma held_lookup:
  assumes "held k r j c"
  shows "map_of c k = Some r"
proof -
  from assms obtain pre post where
    c: "c = pre @ (k, r) # post" and nin: "k \<notin> fst ` set pre"
    unfolding held_def by blast
  from nin have "map_of pre k = None" by (simp add: map_of_eq_None_iff)
  then show ?thesis by (simp add: c map_add_def)
qed

lemma maxsize_pos: "0 < maxsize"
  by (simp add: maxsize_def)

lemma held_mono: "held k r j c \<Longrightarrow> j \<le> j' \<Longrightarrow> held k r j' c"
  by (auto simp: held_def intro: le_trans)

lemma held_front: "held k r 0 ((k, r) # c)"
  unfolding held_def by (rule exI [of _ "[]"]) simp

lemma held_push:
  assumes "held k r j c" "k' \<noteq> k"
  shows "held k r (Suc j) ((k', v) # filter (\<lambda>e. fst e \<noteq> k') c)"
proof -
  from assms(1) obtain pre post where
    c: "c = pre @ (k, r) # post" and nin: "k \<notin> fst ` set pre" and len: "length pre \<le> j"
    unfolding held_def by blast
  let ?pre = "(k', v) # filter (\<lambda>e. fst e \<noteq> k') pre"
  have "(k', v) # filter (\<lambda>e. fst e \<noteq> k') c = ?pre @ (k, r) # filter (\<lambda>e. fst e \<noteq> k') post"
    using c assms(2) by simp
  moreover have "k \<notin> fst ` set ?pre" using nin assms(2) by auto
  moreover have "length ?pre \<le> Suc j"
    using len le_trans [OF length_filter_le len] by simp
  ultimately show ?thesis unfolding held_def by blast
qed

lemma held_insert:
  assumes "held k r j c" "k' \<noteq> k" "Suc j < maxsize"
  shows "held k r (Suc j) ((k', v) # (if maxsize \<le> length c then butlast c else c))"
proof -
  from assms(1) obtain pre post where
    c: "c = pre @ (k, r) # post" and nin: "k \<notin> fst ` set pre" and len: "length pre \<le> j"
    unfolding held_def by blast
  show ?thesis
  proof (cases "maxsize \<le> length c")
    case False
    then have "(k', v) # (if maxsize \<le> length c then butlast c else c)
                 = ((k', v) # pre) @ (k, r) # post"
      using c by simp
    moreover have "k \<notin> fst ` set ((k', v) # pre)" using nin assms(2) by auto
    moreover have "length ((k', v) # pre) \<le> Suc j" using len by simp
    ultimately show ?thesis unfolding held_def by blast
  next
    case True
    with c len assms(3) have "post \<noteq> []" by auto
    then have "butlast c = pre @ (k, r) # butlast post"
      using c by (simp add: butlast_append)
    with True have "(k', v) # (if maxsize \<le> length c then butlast c else c)
                 = ((k', v) # pre) @ (k, r) # butlast post"
      by simp
    moreover have "k \<notin> fst ` set ((k', v) # pre)" using nin assms(2) by auto
    moreover have "length ((k', v) # pre) \<le> Suc j" using len by simp
    ultimately show ?thesis unfolding held_def by blast
  qed
qed

lemma held_step:
  assumes h: "held k r j (lru s)" and j: "Suc j < maxsize"
  shows "held k r (Suc j) (lru (snd (translate_sequence_identifier dp cl s)))"
proof (cases "map_of (lru s) (obj_id dp, cl)")
  case (Some v)
  note hit = translate_hit [OF Some]
  show ?thesis
  proof (cases "(obj_id dp, cl) = k")
    case True
    with Some held_lookup [OF h] have "v = r" by simp
    moreover have "held k r (Suc j) ((k, r) # filter (\<lambda>e. fst e \<noteq> k) (lru s))"
      by (rule held_mono [OF held_front]) simp
    ultimately show ?thesis using True hit by simp
  next
    case False
    from held_push [OF h False] hit show ?thesis by simp
  qed
next
  case None
  with held_lookup [OF h] have ne: "(obj_id dp, cl) \<noteq> k" by auto
  show ?thesis
  proof (cases "fst (translate_sequence_identifier_wrapped dp (identifier_of cl) (namespace_of cl) s)")
    case (Inl e)
    from translate_miss_fail [OF None Inl] held_mono [OF h, of "Suc j"] show ?thesis by simp
  next
    case (Inr v)
    from translate_miss_ok [OF None Inr] held_insert [OF h ne j] show ?thesis by simp
  qed
qed

lemma held_run:
  "held k r j (lru s) \<Longrightarrow> j + length cs < maxsize \<Longrightarrow> held k r (j + length cs) (lru (run cs s))"
proof (induction cs arbitrary: s j)
  case Nil
  then show ?case by simp
next
  case (Cons c cs)
  obtain dp cl where c: "c = (dp, cl)" by (cases c) auto
  from Cons.prems have "Suc j < maxsize" by simp
  from held_step [OF Cons.prems(1) this]
  have "held k r (Suc j) (lru (snd (translate_sequence_identifier dp cl s)))" .
  from Cons.IH [OF this] Cons.prems(2) show ?case by (simp add: c)
qed

lemma held_after_success:
  assumes "fst (translate_sequence_identifier dp cl s) = Inr r"
  shows "held (obj_id dp, cl) r 0 (lru (snd (translate_sequence_identifier dp cl s)))"
proof (cases "map_of (lru s) (obj_id dp, cl)")
  case (Some v)
  from translate_hit [OF Some] assms show ?thesis by (simp add: held_front)
next
  case None
  show ?thesis
  proof (cases "fst (translate_sequence_identifier_wrapped dp (identifier_of cl) (namespace_of cl) s)")
    case (Inl e)
    from translate_miss_fail [OF None Inl] assms show ?thesis by simp
  next
    case (Inr v)
    from translate_miss_ok [OF None Inr] assms show ?thesis by (simp add: held_front)
  qed
qed

lemma lru_bound_step:
  assumes "length (lru s) \<le> maxsize"
  shows "length (lru (snd (translate_sequence_identifier dp cl s))) \<le> maxsize"
proof (cases "map_of (lru s) (obj_id dp, cl)")
  case (Some v)
  then have "((obj_id dp, cl), v) \<in> set (lru s)" by (rule map_of_SomeD)
  then have "length (filter (\<lambda>e. fst e \<noteq> (obj_id dp, cl)) (lru s)) < length (lru s)"
    by (intro length_filter_less [of "((obj_id dp, cl), v)"]) auto
  with assms translate_hit [OF Some] show ?thesis by simp
next
  case None
  show ?thesis
  proof (cases "fst (translate_sequence_identifier_wrapped dp (identifier_of cl) (namespace_of cl) s)")
    case (Inl e)
    from translate_miss_fail [OF None Inl] assms show ?thesis by simp
  next
    case (Inr v)
    from translate_miss_ok [OF None Inr] assms maxsize_pos show ?thesis by auto
  qed
qed

lemma lru_bound_run:
  "length (lru s) \<le> maxsize \<Longrightarrow> length (lru (run cs s)) \<le> maxsize"
proof (induction cs arbitrary: s)
  case Nil
  then show ?case by simp
next
  case (Cons c cs)
  obtain dp cl where c: "c = (dp, cl)" by (cases c) auto
  from Cons.IH [OF lru_bound_step [OF Cons.prems]] show ?case by (simp add: c)
qed

lemma run_append: "run (xs @ ys) s = run ys (run xs s)"
  by (induction xs arbitrary: s) auto

lemma stub_miss:
  assumes "map_of (lru s) (0, cl) = None"
  shows "translate_sequence_identifier stub_dp cl s
           = (Inr (case namespace_of cl of
                     None \<Rightarrow> [''stub:'' @ identifier_of cl]
                   | Some n \<Rightarrow> filter (prefix (n @ '':'')) [''stub:'' @ identifier_of cl]),
              s\<lparr>md_calls := md_calls s @ [(0, identifier_of cl)],
                 lru := ((0, cl),
                         case namespace_of cl of
                           None \<Rightarrow> [''stub:'' @ identifier_of cl]
                         | Some n \<Rightarrow> filter (prefix (n @ '':'')) [''stub:'' @ identifier_of cl])
                   # (if maxsize \<le> length (lru s) then butlast (lru s) else lru s)\<rparr>)"
proof -
  have "fst (translate_sequence_identifier_wrapped stub_dp (identifier_of cl) (namespace_of cl) s)
          = Inr (case namespace_of cl of
                     None \<Rightarrow> [''stub:'' @ identifier_of cl]
                   | Some n \<Rightarrow> filter (prefix (n @ '':'')) [''stub:'' @ identifier_of cl])"
    by (simp add: translate_sequence_identifier_wrapped_def call_get_metadata_def stub_dp_def
             split: option.splits)
  from translate_miss_ok [of s stub_dp cl, OF _ this] assms show ?thesis
    by (simp add: stub_dp_def)
qed

lemma filler_neq_q: "filler n \<noteq> ''q''" "''q'' \<noteq> filler n"
  by (simp_all add: filler_def)

lemma filler_fresh:
  "map_of (rev (map entry [0..<n]) @ c) (0, Pos2 (filler n) None)
     = map_of c (0, Pos2 (filler n) None)"
proof -
  have "(0, Pos2 (filler n) None) \<notin> fst ` set (rev (map entry [0..<n]))"
    by (auto simp: entry_def filler_def image_image)
  then have "map_of (rev (map entry [0..<n])) (0, Pos2 (filler n) None) = None"
    by (simp add: map_of_eq_None_iff)
  then show ?thesis by (simp add: map_add_def)
qed

lemma q_fresh: "map_of (rev (map entry [0..<n])) (0, Pos2 ''q'' None) = None"
proof -
  have "(0, Pos2 ''q'' None) \<notin> fst ` set (rev (map entry [0..<n]))"
    by (auto simp: entry_def filler_def image_image)
  then show ?thesis by (simp add: map_of_eq_None_iff)
qed

lemma filler_miss:
  "map_of (rev (map entry [0..<n]) @ [((0, Pos2 ''q'' None), [''stub:q''])])
     (0, Pos2 (filler n) None) = None"
  unfolding filler_fresh by (simp add: filler_neq_q)

lemma fill_run:
  "n < maxsize \<Longrightarrow>
   run (map (\<lambda>n. (stub_dp, Pos2 (filler n) None)) [0..<n])
       \<lparr>md_calls = [(0, ''q'')], seq_calls = [], lru = [((0, Pos2 ''q'' None), [''stub:q''])]\<rparr>
     = \<lparr>md_calls = (0, ''q'') # map (\<lambda>j. (0, filler j)) [0..<n], seq_calls = [],
        lru = rev (map entry [0..<n]) @ [((0, Pos2 ''q'' None), [''stub:q''])]\<rparr>"
proof (induction n)
  case 0
  then show ?case by simp
next
  case (Suc n)
  let ?s = "\<lparr>md_calls = (0, ''q'') # map (\<lambda>j. (0, filler j)) [0..<n], seq_calls = [],
        lru = rev (map entry [0..<n]) @ [((0, Pos2 ''q'' None), [''stub:q''])]\<rparr>"
  have "map_of (lru ?s) (0, Pos2 (filler n) None) = None"
    using filler_miss [of n] by simp
  from stub_miss [OF this] Suc.prems
  have "snd (translate_sequence_identifier stub_dp (Pos2 (filler n) None) ?s)
          = \<lparr>md_calls = (0, ''q'') # map (\<lambda>j. (0, filler j)) [0..<n] @ [(0, filler n)],
             seq_calls = [],
             lru = entry n # rev (map entry [0..<n]) @ [((0, Pos2 ''q'' None), [''stub:q''])]\<rparr>"
    by (simp add: entry_def)
  with Suc show ?case
    by (simp add: run_append)
qed

lemma first_call:
  "translate_sequence_identifier stub_dp (Pos2 ''q'' None) empty_state
     = (Inr [''stub:q''],
        \<lparr>md_calls = [(0, ''q'')], seq_calls = [],
         lru = [((0, Pos2 ''q'' None), [''stub:q''])]\<rparr>)"
  using stub_miss [of empty_state "Pos2 ''q'' None"] by (simp add: empty_state_def maxsize_def)

lemma after_fillers:
  "run fillers (snd (translate_sequence_identifier stub_dp (Pos2 ''q'' None) empty_state))
     = \<lparr>md_calls = (0, ''q'') # map (\<lambda>j. (0, filler j)) [0..<maxsize], seq_calls = [],
        lru = rev (map entry [0..<maxsize])\<rparr>"
proof -
  have m: "maxsize = Suc 127" by (simp add: maxsize_def)
  let ?s = "\<lparr>md_calls = (0, ''q'') # map (\<lambda>j. (0, filler j)) [0..<127], seq_calls = [],
        lru = rev (map entry [0..<127]) @ [((0, Pos2 ''q'' None), [''stub:q''])]\<rparr>"
  have miss: "map_of (lru ?s) (0, Pos2 (filler 127) None) = None"
    using filler_miss [of 127] by simp
  have "run (map (\<lambda>n. (stub_dp, Pos2 (filler n) None)) [0..<127])
          \<lparr>md_calls = [(0, ''q'')], seq_calls = [],
           lru = [((0, Pos2 ''q'' None), [''stub:q''])]\<rparr> = ?s"
    by (rule fill_run) (simp add: maxsize_def)
  moreover have "length (lru ?s) = 128" by simp
  with stub_miss [OF miss]
  have "snd (translate_sequence_identifier stub_dp (Pos2 (filler 127) None) ?s)
          = \<lparr>md_calls = (0, ''q'') # map (\<lambda>j. (0, filler j)) [0..<127] @ [(0, filler 127)],
             seq_calls = [],
             lru = entry 127 # rev (map entry [0..<127])\<rparr>"
    by (simp add: entry_def maxsize_def del: upt_rec_numeral)
  ultimately show ?thesis
    unfolding fillers_def m upt_Suc_append [OF le0] map_append run_append first_call snd_conv
    by (simp del: upt_rec_numeral)
qed

lemma evicted_then_called_again:
  "count_list
     (md_calls (snd (translate_sequence_identifier stub_dp (Pos2 ''q'' None)
        (run fillers (snd (translate_sequence_identifier stub_dp (Pos2 ''q'' None) empty_state))))))
     (0, ''q'') = 2"
proof -
  let ?s = "\<lparr>md_calls = (0, ''q'') # map (\<lambda>j. (0, filler j)) [0..<maxsize], seq_calls = [],
        lru = rev (map entry [0..<maxsize])\<rparr>"
  have "map_of (lru ?s) (0, Pos2 ''q'' None) = None"
    by (simp add: q_fresh)
  from stub_miss [OF this]
  have calls: "md_calls (snd (translate_sequence_identifier stub_dp (Pos2 ''q'' None)
           (run fillers (snd (translate_sequence_identifier stub_dp (Pos2 ''q'' None) empty_state)))))
          = (0, ''q'') # map (\<lambda>j. (0, filler j)) [0..<maxsize] @ [(0, ''q'')]"
    unfolding after_fillers by simp
  have "(0, ''q'') \<notin> set (map (\<lambda>j. (0::nat, filler j)) [0..<maxsize])"
    using filler_neq_q by auto
  then have "count_list (map (\<lambda>j. (0::nat, filler j)) [0..<maxsize]) (0, ''q'') = 0"
    by (simp add: count_list_0_iff)
  then show ?thesis
    unfolding calls by simp
qed

text \<open>
  Claim C1, as amended. After a call of \<open>translate_sequence_identifier\<close> that returned, a
  further call on the same proxy with the same identifier and namespace, passed in the
  same way (each positionally or by keyword as before), returns the same result from the
  cache and invokes no backend method: the state changes in the order of the cache only.
  This holds provided fewer than 128 calls of the function, on any proxy and with any
  arguments, were made in between. The cache never holds more than 128 entries.
\<close>

theorem repeated_call_is_a_hit:
  assumes "fst (translate_sequence_identifier dp cl s) = Inr r"
    and "length cs < maxsize"
  shows "translate_sequence_identifier dp cl
           (run cs (snd (translate_sequence_identifier dp cl s)))
         = (Inr r, (run cs (snd (translate_sequence_identifier dp cl s)))
                     \<lparr>lru := ((obj_id dp, cl), r)
                        # filter (\<lambda>e. fst e \<noteq> (obj_id dp, cl))
                            (lru (run cs (snd (translate_sequence_identifier dp cl s))))\<rparr>)
     \<and> (length (lru s) \<le> maxsize \<longrightarrow>
          length (lru (run cs (snd (translate_sequence_identifier dp cl s)))) \<le> maxsize)"
proof -
  let ?s1 = "snd (translate_sequence_identifier dp cl s)"
  have "held (obj_id dp, cl) r (0 + length cs) (lru (run cs ?s1))"
    using held_after_success [OF assms(1)] assms(2) by (intro held_run) simp_all
  then have "map_of (lru (run cs ?s1)) (obj_id dp, cl) = Some r"
    by (rule held_lookup)
  from translate_hit [OF this] lru_bound_run [OF lru_bound_step, of s cs dp cl]
  show ?thesis by simp
qed

theorem repeated_call_is_a_hit_witness:
  "fst (translate_sequence_identifier stub_dp (Pos2 ''q'' None) empty_state) = Inr [''stub:q'']
   \<and> length [(stub_dp, Kw1 ''a''), (stub_dp, Pos1 ''q'')] < maxsize
   \<and> translate_sequence_identifier stub_dp (Pos2 ''q'' None)
        (run [(stub_dp, Kw1 ''a''), (stub_dp, Pos1 ''q'')]
           (snd (translate_sequence_identifier stub_dp (Pos2 ''q'' None) empty_state)))
       = (Inr [''stub:q''],
          \<lparr>md_calls = [(0, ''q''), (0, ''a''), (0, ''q'')], seq_calls = [],
           lru = [((0, Pos2 ''q'' None), [''stub:q'']), ((0, Pos1 ''q''), [''stub:q'']),
                  ((0, Kw1 ''a''), [''stub:a''])]\<rparr>)"
proof -
  let ?cs = "[(stub_dp, Kw1 ''a''), (stub_dp, Pos1 ''q'')]"
  have h1: "fst (translate_sequence_identifier stub_dp (Pos2 ''q'' None) empty_state)
              = Inr [''stub:q'']"
    by (simp add: first_call)
  have h2: "length ?cs < maxsize"
    by (simp add: maxsize_def)
  have a: "translate_sequence_identifier stub_dp (Kw1 ''a'')
             \<lparr>md_calls = [(0, ''q'')], seq_calls = [],
              lru = [((0, Pos2 ''q'' None), [''stub:q''])]\<rparr>
           = (Inr [''stub:a''],
              \<lparr>md_calls = [(0, ''q''), (0, ''a'')], seq_calls = [],
               lru = [((0, Kw1 ''a''), [''stub:a'']), ((0, Pos2 ''q'' None), [''stub:q''])]\<rparr>)"
    by (subst stub_miss) (simp_all add: maxsize_def)
  have b: "translate_sequence_identifier stub_dp (Pos1 ''q'')
             \<lparr>md_calls = [(0, ''q''), (0, ''a'')], seq_calls = [],
              lru = [((0, Kw1 ''a''), [''stub:a'']), ((0, Pos2 ''q'' None), [''stub:q''])]\<rparr>
           = (Inr [''stub:q''],
              \<lparr>md_calls = [(0, ''q''), (0, ''a''), (0, ''q'')], seq_calls = [],
               lru = [((0, Pos1 ''q''), [''stub:q'']), ((0, Kw1 ''a''), [''stub:a'']),
                      ((0, Pos2 ''q'' None), [''stub:q''])]\<rparr>)"
    by (subst stub_miss) (simp_all add: maxsize_def)
  have r: "run ?cs (snd (translate_sequence_identifier stub_dp (Pos2 ''q'' None) empty_state))
           = \<lparr>md_calls = [(0, ''q''), (0, ''a''), (0, ''q'')], seq_calls = [],
               lru = [((0, Pos1 ''q''), [''stub:q'']), ((0, Kw1 ''a''), [''stub:a'']),
                      ((0, Pos2 ''q'' None), [''stub:q''])]\<rparr>"
    by (simp add: first_call a b)
  from repeated_call_is_a_hit [OF h1 h2]
  have "translate_sequence_identifier stub_dp (Pos2 ''q'' None)
          (run ?cs (snd (translate_sequence_identifier stub_dp (Pos2 ''q'' None) empty_state)))
        = (Inr [''stub:q''],
           (run ?cs (snd (translate_sequence_identifier stub_dp (Pos2 ''q'' None) empty_state)))
             \<lparr>lru := ((obj_id stub_dp, Pos2 ''q'' None), [''stub:q''])
                # filter (\<lambda>e. fst e \<noteq> (obj_id stub_dp, Pos2 ''q'' None))
                    (lru (run ?cs (snd (translate_sequence_identifier stub_dp
                                          (Pos2 ''q'' None) empty_state))))\<rparr>)"
    by blast
  then have "translate_sequence_identifier stub_dp (Pos2 ''q'' None)
          (run ?cs (snd (translate_sequence_identifier stub_dp (Pos2 ''q'' None) empty_state)))
       = (Inr [''stub:q''],
          \<lparr>md_calls = [(0, ''q''), (0, ''a''), (0, ''q'')], seq_calls = [],
           lru = [((0, Pos2 ''q'' None), [''stub:q'']), ((0, Pos1 ''q''), [''stub:q'']),
                  ((0, Kw1 ''a''), [''stub:a''])]\<rparr>)"
    unfolding r by (simp add: stub_dp_def)
  with h1 h2 show ?thesis by blast
qed

text \<open>
  Claim C1 as stated fails in three ways; every run below invokes \<open>get_metadata\<close> twice
  for the same identifier and namespace. The cache is bounded: the proxy double answers
  every identifier, \<open>q\<close> is looked up, then 128 other identifiers, then \<open>q\<close> again, and
  every call returns. The key is the call as written: \<open>t(q)\<close> and then \<open>t(q, None)\<close>
  bind the same pair. And a call that raised stored nothing: an unknown identifier is
  looked up twice in a row.
\<close>

theorem cache_is_bounded_counterexample:
  "fst (translate_sequence_identifier stub_dp (Pos2 ''q'' None) empty_state) = Inr [''stub:q'']
   \<and> count_list
        (md_calls (snd (translate_sequence_identifier stub_dp (Pos2 ''q'' None)
           (run fillers
              (snd (translate_sequence_identifier stub_dp (Pos2 ''q'' None) empty_state))))))
        (0, ''q'') = 2
   \<and> identifier_of (Pos1 ''q'') = identifier_of (Pos2 ''q'' None)
   \<and> namespace_of (Pos1 ''q'') = namespace_of (Pos2 ''q'' None)
   \<and> md_calls (snd (translate_sequence_identifier stub_dp (Pos2 ''q'' None)
        (snd (translate_sequence_identifier stub_dp (Pos1 ''q'') empty_state))))
       = [(0, ''q''), (0, ''q'')]
   \<and> md_calls (snd (translate_sequence_identifier docstring_dp (Pos2 ''NM_000552.4'' None)
        (snd (translate_sequence_identifier docstring_dp (Pos2 ''NM_000552.4'' None)
                empty_state))))
       = [(1, ''NM_000552.4''), (1, ''NM_000552.4'')]"
proof -
  have shape: "md_calls (snd (translate_sequence_identifier stub_dp (Pos2 ''q'' None)
        (snd (translate_sequence_identifier stub_dp (Pos1 ''q'') empty_state))))
       = [(0, ''q''), (0, ''q'')]"
  proof -
    have 1: "translate_sequence_identifier stub_dp (Pos1 ''q'') empty_state
               = (Inr [''stub:q''],
                  \<lparr>md_calls = [(0, ''q'')], seq_calls = [],
                   lru = [((0, Pos1 ''q''), [''stub:q''])]\<rparr>)"
      by (subst stub_miss) (simp_all add: empty_state_def maxsize_def)
    show ?thesis
      unfolding 1 snd_conv by (subst stub_miss) (simp_all add: maxsize_def)
  qed
  have failed: "md_calls (snd (translate_sequence_identifier docstring_dp (Pos2 ''NM_000552.4'' None)
        (snd (translate_sequence_identifier docstring_dp (Pos2 ''NM_000552.4'' None)
                empty_state))))
       = [(1, ''NM_000552.4''), (1, ''NM_000552.4'')]"
  proof -
    have w: "fst (translate_sequence_identifier_wrapped docstring_dp
                    (identifier_of (Pos2 ''NM_000552.4'' None))
                    (namespace_of (Pos2 ''NM_000552.4'' None)) t)
               = Inl (KeyError ''NM_000552.4'')" for t
      by (simp add: translate_sequence_identifier_wrapped_def call_get_metadata_def
            docstring_dp_def)
    have 1: "translate_sequence_identifier docstring_dp (Pos2 ''NM_000552.4'' None) empty_state
               = (Inl (KeyError ''NM_000552.4''),
                  \<lparr>md_calls = [(1, ''NM_000552.4'')], seq_calls = [], lru = []\<rparr>)"
      by (subst translate_miss_fail [OF _ w]) (simp_all add: empty_state_def docstring_dp_def)
    show ?thesis
      unfolding 1 snd_conv
      by (subst translate_miss_fail [OF _ w]) (simp_all add: docstring_dp_def)
  qed
  from shape failed evicted_then_called_again show ?thesis
    by (simp add: first_call)
qed

section \<open>The methods of the adapters\<close>

lemma base_get_metadata_record:
  "f i = Inr (Record md) \<Longrightarrow> SeqRepoDataProxyBase_get_metadata f i = Inr md"
  by (simp add: SeqRepoDataProxyBase_get_metadata_def)

lemma base_get_metadata_error:
  "f i = Inl e \<Longrightarrow> SeqRepoDataProxyBase_get_metadata f i = Inl e"
  by (simp add: SeqRepoDataProxyBase_get_metadata_def)

lemma rest_get_sequence:
  "get_sequence (SeqRepoRESTDataProxy oid rget base_url) i st en
     = (case rget (SeqRepoRESTDataProxy_base_url base_url @ ''sequence/'' @ i)
               [(''start'', st), (''end'', en)] of
          Inl e \<Rightarrow> Inl e
        | Inr resp \<Rightarrow>
            if status_code resp = 404 then Inl (KeyError i)
            else if 400 \<le> status_code resp \<and> status_code resp < 600
            then Inl (HTTPError (status_code resp))
            else Inr (resp_text resp))"
  by (simp add: SeqRepoRESTDataProxy_def SeqRepoDataProxyBase_get_sequence_def
        SeqRepoRESTDataProxy_priv_get_sequence_def raise_for_status_def Let_def
      split: sum.splits)

lemma rest_priv_get_metadata:
  "SeqRepoRESTDataProxy_priv_get_metadata rget (SeqRepoRESTDataProxy_base_url base_url) i
     = (case rget (SeqRepoRESTDataProxy_base_url base_url @ ''metadata/'' @ i) [] of
          Inl e \<Rightarrow> Inl e
        | Inr resp \<Rightarrow>
            if status_code resp = 404 then Inl (KeyError i)
            else if 400 \<le> status_code resp \<and> status_code resp < 600
            then Inl (HTTPError (status_code resp))
            else json resp)"
  by (simp add: SeqRepoRESTDataProxy_priv_get_metadata_def raise_for_status_def Let_def
      split: sum.splits)

lemma rest_get_metadata:
  "get_metadata (SeqRepoRESTDataProxy oid rget base_url) i
     = (case rget (SeqRepoRESTDataProxy_base_url base_url @ ''metadata/'' @ i) [] of
          Inl e \<Rightarrow> Inl e
        | Inr resp \<Rightarrow>
            if status_code resp = 404 then Inl (KeyError i)
            else if 400 \<le> status_code resp \<and> status_code resp < 600
            then Inl (HTTPError (status_code resp))
            else (case json resp of
                    Inl e \<Rightarrow> Inl e
                  | Inr NotADict \<Rightarrow> Inl (TypeError ''indices must be integers'')
                  | Inr NoAliases \<Rightarrow> Inl (KeyError ''aliases'')
                  | Inr AliasesNotIterable \<Rightarrow> Inl (TypeError ''object is not iterable'')
                  | Inr (Record md) \<Rightarrow> Inr md))"
  by (simp add: SeqRepoRESTDataProxy_def SeqRepoDataProxyBase_get_metadata_def
        rest_priv_get_metadata
      split: sum.splits decoded.splits)

lemma demo_urls:
  "SeqRepoRESTDataProxy_base_url ''http://localhost:5000/seqrepo'' @ ''sequence/'' @ i
     = ''http://localhost:5000/seqrepo/1/sequence/'' @ i"
  "SeqRepoRESTDataProxy_base_url ''http://localhost:5000/seqrepo'' @ ''metadata/'' @ i
     = ''http://localhost:5000/seqrepo/1/metadata/'' @ i"
  by (simp_all add: SeqRepoRESTDataProxy_base_url_def rest_version_def)

section \<open>Lookup failures in \<open>translate_sequence_identifier\<close>\<close>

lemma wrapped_fst:
  "fst (translate_sequence_identifier_wrapped dp i ns s)
     = (case get_metadata dp i of
          Inl e \<Rightarrow> Inl (if caught e then KeyError i else e)
        | Inr md \<Rightarrow>
            Inr (case ns of
                   None \<Rightarrow> remdups (aliases md)
                 | Some n \<Rightarrow> filter (prefix (n @ '':'')) (remdups (aliases md))))"
  by (simp add: translate_sequence_identifier_wrapped_def call_get_metadata_def Let_def
           split: sum.splits option.splits)

lemma translate_miss:
  assumes "map_of (lru s) (obj_id dp, cl) = None"
  shows "fst (translate_sequence_identifier dp cl s)
           = fst (translate_sequence_identifier_wrapped dp (identifier_of cl) (namespace_of cl) s)"
    and "md_calls (snd (translate_sequence_identifier dp cl s))
           = md_calls s @ [(obj_id dp, identifier_of cl)]"
    and "seq_calls (snd (translate_sequence_identifier dp cl s)) = seq_calls s"
proof -
  let ?w = "fst (translate_sequence_identifier_wrapped dp (identifier_of cl) (namespace_of cl) s)"
  show "fst (translate_sequence_identifier dp cl s) = ?w"
  proof (cases ?w)
    case (Inl e)
    from translate_miss_fail [OF assms Inl] Inl show ?thesis by simp
  next
    case (Inr v)
    from translate_miss_ok [OF assms Inr] Inr show ?thesis by simp
  qed
  show "md_calls (snd (translate_sequence_identifier dp cl s))
          = md_calls s @ [(obj_id dp, identifier_of cl)]"
  proof (cases ?w)
    case (Inl e)
    from translate_miss_fail [OF assms Inl] show ?thesis by simp
  next
    case (Inr v)
    from translate_miss_ok [OF assms Inr] show ?thesis by simp
  qed
  show "seq_calls (snd (translate_sequence_identifier dp cl s)) = seq_calls s"
  proof (cases ?w)
    case (Inl e)
    from translate_miss_fail [OF assms Inl] show ?thesis by simp
  next
    case (Inr v)
    from translate_miss_ok [OF assms Inr] show ?thesis by simp
  qed
qed

lemma translate_failure_is_miss:
  assumes "fst (translate_sequence_identifier dp cl s) = Inl e"
  shows "map_of (lru s) (obj_id dp, cl) = None"
proof (cases "map_of (lru s) (obj_id dp, cl)")
  case None
  then show ?thesis .
next
  case (Some v)
  from translate_hit [OF Some] assms show ?thesis by simp
qed

text \<open>
  Claim C2, as amended. A call of \<open>translate_sequence_identifier\<close> that is not answered
  from the cache calls \<open>get_metadata\<close> once, with the identifier. A lookup failure raised
  by that call, that is a \<open>ValueError\<close> (malformed identifier), a \<open>KeyError\<close> (not found)
  or an \<open>IndexError\<close> (empty result), leaves the function as \<open>KeyError(identifier)\<close>. An
  exception of any other class raised by \<open>get_metadata\<close> passes unchanged. The function
  raises nothing else: whenever it raises, the exception is \<open>KeyError(identifier)\<close> or an
  exception of \<open>get_metadata\<close> outside the three classes. All of this holds however the
  arguments are passed.
\<close>

theorem translate_normalizes_lookup_failures:
  "(map_of (lru s) (obj_id dp, cl) = None \<longrightarrow>
      md_calls (snd (translate_sequence_identifier dp cl s))
        = md_calls s @ [(obj_id dp, identifier_of cl)])
   \<and> (map_of (lru s) (obj_id dp, cl) = None
        \<and> get_metadata dp (identifier_of cl) = Inl e \<and> caught e \<longrightarrow>
        fst (translate_sequence_identifier dp cl s) = Inl (KeyError (identifier_of cl)))
   \<and> (map_of (lru s) (obj_id dp, cl) = None
        \<and> get_metadata dp (identifier_of cl) = Inl e \<and> \<not> caught e \<longrightarrow>
        fst (translate_sequence_identifier dp cl s) = Inl e)
   \<and> (fst (translate_sequence_identifier dp cl s) = Inl e' \<longrightarrow>
        e' = KeyError (identifier_of cl)
        \<or> (\<not> caught e' \<and> get_metadata dp (identifier_of cl) = Inl e'))"
proof (intro conjI impI)
  assume "map_of (lru s) (obj_id dp, cl) = None"
  then show "md_calls (snd (translate_sequence_identifier dp cl s))
               = md_calls s @ [(obj_id dp, identifier_of cl)]"
    by (rule translate_miss(2))
next
  assume "map_of (lru s) (obj_id dp, cl) = None
            \<and> get_metadata dp (identifier_of cl) = Inl e \<and> caught e"
  then show "fst (translate_sequence_identifier dp cl s) = Inl (KeyError (identifier_of cl))"
    by (simp add: translate_miss(1) wrapped_fst)
next
  assume "map_of (lru s) (obj_id dp, cl) = None
            \<and> get_metadata dp (identifier_of cl) = Inl e \<and> \<not> caught e"
  then show "fst (translate_sequence_identifier dp cl s) = Inl e"
    by (simp add: translate_miss(1) wrapped_fst)
next
  assume f: "fst (translate_sequence_identifier dp cl s) = Inl e'"
  from translate_miss(1) [OF translate_failure_is_miss [OF f]] f
  have "fst (translate_sequence_identifier_wrapped dp (identifier_of cl) (namespace_of cl) s)
          = Inl e'"
    by simp
  then show "e' = KeyError (identifier_of cl)
               \<or> (\<not> caught e' \<and> get_metadata dp (identifier_of cl) = Inl e')"
    by (auto simp: wrapped_fst split: sum.splits if_splits)
qed

lemma demo_local_no_such_id:
  "get_metadata (SeqRepoDataProxy 0 demo_im demo_sr) ''no-such-id''
     = Inl (ValueError ''Could not infer namespace for no-such-id'')"
  by (simp add: SeqRepoDataProxy_def SeqRepoDataProxyBase_get_metadata_def
        SeqRepoDataProxy_priv_get_metadata_def demo_im_def)

lemma demo_rest_crash:
  "get_metadata (SeqRepoRESTDataProxy 2 demo_server ''http://localhost:5000/seqrepo'') ''crash''
     = Inl (HTTPError 500)"
  unfolding rest_get_metadata demo_urls by (simp add: demo_server_def)

lemma demo_rest_empty:
  "get_metadata (SeqRepoRESTDataProxy 2 demo_server ''http://localhost:5000/seqrepo'') ''empty''
     = Inl (KeyError ''aliases'')"
  unfolding rest_get_metadata demo_urls by (simp add: demo_server_def)

theorem translate_normalizes_lookup_failures_witness:
  "map_of (lru empty_state)
     (obj_id (SeqRepoDataProxy 0 demo_im demo_sr), Pos2 ''no-such-id'' None) = None
   \<and> get_metadata (SeqRepoDataProxy 0 demo_im demo_sr) ''no-such-id''
       = Inl (ValueError ''Could not infer namespace for no-such-id'')
   \<and> caught (ValueError ''Could not infer namespace for no-such-id'')
   \<and> md_calls (snd (translate_sequence_identifier (SeqRepoDataProxy 0 demo_im demo_sr)
                      (Pos2 ''no-such-id'' None) empty_state))
       = md_calls empty_state @ [(0, ''no-such-id'')]
   \<and> fst (translate_sequence_identifier (SeqRepoDataProxy 0 demo_im demo_sr)
            (Pos2 ''no-such-id'' None) empty_state) = Inl (KeyError ''no-such-id'')
   \<and> get_metadata (SeqRepoRESTDataProxy 2 demo_server ''http://localhost:5000/seqrepo'') ''empty''
       = Inl (KeyError ''aliases'')
   \<and> fst (translate_sequence_identifier
            (SeqRepoRESTDataProxy 2 demo_server ''http://localhost:5000/seqrepo'')
            (Kw1 ''empty'') empty_state) = Inl (KeyError ''empty'')
   \<and> map_of (lru empty_state)
        (obj_id (SeqRepoRESTDataProxy 2 demo_server ''http://localhost:5000/seqrepo''),
         PosKw ''crash'' (Some ''refseq'')) = None
   \<and> get_metadata (SeqRepoRESTDataProxy 2 demo_server ''http://localhost:5000/seqrepo'') ''crash''
       = Inl (HTTPError 500)
   \<and> \<not> caught (HTTPError 500)
   \<and> fst (translate_sequence_identifier
            (SeqRepoRESTDataProxy 2 demo_server ''http://localhost:5000/seqrepo'')
            (PosKw ''crash'' (Some ''refseq'')) empty_state) = Inl (HTTPError 500)"
proof -
  let ?dp = "SeqRepoDataProxy 0 demo_im demo_sr"
  let ?rp = "SeqRepoRESTDataProxy 2 demo_server ''http://localhost:5000/seqrepo''"
  have h1: "map_of (lru empty_state) (obj_id ?dp, Pos2 ''no-such-id'' None) = None"
    by (simp add: empty_state_def)
  have h2: "get_metadata ?dp ''no-such-id''
              = Inl (ValueError ''Could not infer namespace for no-such-id'')"
    by (rule demo_local_no_such_id)
  have h3: "caught (ValueError ''Could not infer namespace for no-such-id'')"
    by simp
  have h4: "obj_id ?dp = 0" by (simp add: SeqRepoDataProxy_def)
  from translate_normalizes_lookup_failures
         [of empty_state ?dp "Pos2 ''no-such-id'' None"
             "ValueError ''Could not infer namespace for no-such-id''"]
       h1 h2 h3
  have c1: "md_calls (snd (translate_sequence_identifier ?dp (Pos2 ''no-such-id'' None) empty_state))
          = md_calls empty_state @ [(obj_id ?dp, ''no-such-id'')]
        \<and> fst (translate_sequence_identifier ?dp (Pos2 ''no-such-id'' None) empty_state)
          = Inl (KeyError ''no-such-id'')"
    by simp
  have k1: "map_of (lru empty_state) (obj_id ?rp, Kw1 ''empty'') = None"
    by (simp add: empty_state_def)
  have k2: "get_metadata ?rp ''empty'' = Inl (KeyError ''aliases'')"
    by (rule demo_rest_empty)
  have k3: "caught (KeyError ''aliases'')"
    by simp
  from translate_normalizes_lookup_failures
         [of empty_state ?rp "Kw1 ''empty''" "KeyError ''aliases''"]
       k1 k2 k3
  have c3: "fst (translate_sequence_identifier ?rp (Kw1 ''empty'') empty_state)
              = Inl (KeyError ''empty'')"
    by simp
  have g1: "map_of (lru empty_state) (obj_id ?rp, PosKw ''crash'' (Some ''refseq'')) = None"
    by (simp add: empty_state_def)
  have g2: "get_metadata ?rp ''crash'' = Inl (HTTPError 500)"
    by (rule demo_rest_crash)
  have g3: "\<not> caught (HTTPError 500)"
    by simp
  from translate_normalizes_lookup_failures
         [of empty_state ?rp "PosKw ''crash'' (Some ''refseq'')" "HTTPError 500"]
       g1 g2 g3
  have c2: "fst (translate_sequence_identifier ?rp (PosKw ''crash'' (Some ''refseq'')) empty_state)
              = Inl (HTTPError 500)"
    by simp
  from h1 h2 h3 h4 c1 k2 c3 g1 g2 g3 c2 show ?thesis by simp
qed

text \<open>
  Claim C2 as stated fails in its last clause: a failure of another kind does leave the
  lookup. The REST service answers 500, \<open>get_metadata\<close> raises \<open>HTTPError\<close>, which the
  handler does not name, and \<open>translate_sequence_identifier\<close> raises that \<open>HTTPError\<close>
  (RemoteError), not \<open>KeyError\<close>.
\<close>

theorem translate_passes_http_error_counterexample:
  "fst (translate_sequence_identifier
          (SeqRepoRESTDataProxy 2 demo_server ''http://localhost:5000/seqrepo'')
          (Pos2 ''crash'' None) empty_state) = Inl (HTTPError 500)
   \<and> kind_of (HTTPError 500) = Some RemoteError
   \<and> HTTPError 500 \<noteq> KeyError ''crash''"
proof -
  let ?rp = "SeqRepoRESTDataProxy 2 demo_server ''http://localhost:5000/seqrepo''"
  have "map_of (lru empty_state) (obj_id ?rp, Pos2 ''crash'' None) = None"
    by (simp add: empty_state_def)
  from translate_miss(1) [OF this]
  have "fst (translate_sequence_identifier ?rp (Pos2 ''crash'' None) empty_state)
          = Inl (HTTPError 500)"
    by (simp add: wrapped_fst demo_rest_crash)
  then show ?thesis by simp
qed

text \<open>
  Claim C4. A call of \<open>translate_sequence_identifier\<close> that raises, with \<open>KeyError\<close> or
  anything else, stores nothing: the cache is as before and has no entry for the call. The
  next call with the same arguments on the same object therefore calls \<open>get_metadata\<close>
  again, and when the backend has come to know the identifier in between, it returns the
  aliases of the new record.
\<close>

theorem failed_lookup_not_cached:
  assumes "fst (translate_sequence_identifier dp cl s) = Inl e"
    and "obj_id dp' = obj_id dp"
  shows "lru (snd (translate_sequence_identifier dp cl s)) = lru s
     \<and> map_of (lru (snd (translate_sequence_identifier dp cl s))) (obj_id dp, cl) = None
     \<and> md_calls (snd (translate_sequence_identifier dp' cl
                        (snd (translate_sequence_identifier dp cl s))))
         = md_calls s @ [(obj_id dp, identifier_of cl), (obj_id dp, identifier_of cl)]
     \<and> (get_metadata dp' (identifier_of cl) = Inr md \<longrightarrow>
          fst (translate_sequence_identifier dp' cl
                 (snd (translate_sequence_identifier dp cl s)))
            = Inr (case namespace_of cl of
                     None \<Rightarrow> remdups (aliases md)
                   | Some n \<Rightarrow> filter (prefix (n @ '':'')) (remdups (aliases md))))"
proof -
  let ?s1 = "snd (translate_sequence_identifier dp cl s)"
  have miss: "map_of (lru s) (obj_id dp, cl) = None"
    using assms(1) by (rule translate_failure_is_miss)
  then have w: "fst (translate_sequence_identifier_wrapped dp
                       (identifier_of cl) (namespace_of cl) s) = Inl e"
    using assms(1) by (simp add: translate_miss(1))
  have s1: "?s1 = s\<lparr>md_calls := md_calls s @ [(obj_id dp, identifier_of cl)]\<rparr>"
    using translate_miss_fail [OF miss w] by simp
  have miss': "map_of (lru ?s1) (obj_id dp', cl) = None"
    using miss assms(2) by (simp add: s1)
  have "lru ?s1 = lru s" by (simp add: s1)
  moreover have "map_of (lru ?s1) (obj_id dp, cl) = None"
    using miss by (simp add: s1)
  moreover have "md_calls (snd (translate_sequence_identifier dp' cl ?s1))
                   = md_calls s @ [(obj_id dp, identifier_of cl), (obj_id dp, identifier_of cl)]"
    unfolding translate_miss(2) [OF miss'] by (simp add: s1 assms(2))
  moreover have "get_metadata dp' (identifier_of cl) = Inr md \<longrightarrow>
          fst (translate_sequence_identifier dp' cl ?s1)
            = Inr (case namespace_of cl of
                     None \<Rightarrow> remdups (aliases md)
                   | Some n \<Rightarrow> filter (prefix (n @ '':'')) (remdups (aliases md)))"
    unfolding translate_miss(1) [OF miss'] by (simp add: wrapped_fst)
  ultimately show ?thesis by blast
qed

theorem failed_lookup_not_cached_witness:
  "fst (translate_sequence_identifier docstring_dp (Pos2 ''NM_000552.4'' None) empty_state)
     = Inl (KeyError ''NM_000552.4'')
   \<and> obj_id registered_dp = obj_id docstring_dp
   \<and> md_calls (snd (translate_sequence_identifier registered_dp (Pos2 ''NM_000552.4'' None)
                      (snd (translate_sequence_identifier docstring_dp
                              (Pos2 ''NM_000552.4'' None) empty_state))))
       = [(1, ''NM_000552.4''), (1, ''NM_000552.4'')]
   \<and> fst (translate_sequence_identifier registered_dp (Pos2 ''NM_000552.4'' None)
            (snd (translate_sequence_identifier docstring_dp
                    (Pos2 ''NM_000552.4'' None) empty_state)))
       = Inr [''refseq:NM_000552.4'']"
proof -
  let ?c = "Pos2 ''NM_000552.4'' None"
  let ?md = "\<lparr>md_length = 100, alphabet = ''ACGT'', added = ''2020-01-01T00:00:00Z'',
                        aliases = [''refseq:NM_000552.4'']\<rparr>"
  have m: "map_of (lru empty_state) (obj_id docstring_dp, ?c) = None"
    by (simp add: empty_state_def)
  have h1: "fst (translate_sequence_identifier docstring_dp ?c empty_state)
              = Inl (KeyError ''NM_000552.4'')"
    unfolding translate_miss(1) [OF m] by (simp add: wrapped_fst docstring_dp_def)
  have h2: "obj_id registered_dp = obj_id docstring_dp"
    by (simp add: registered_dp_def)
  have h3: "get_metadata registered_dp (identifier_of ?c) = Inr ?md"
    by (simp add: registered_dp_def)
  have h4: "obj_id docstring_dp = 1" by (simp add: docstring_dp_def)
  from failed_lookup_not_cached [OF h1 h2, of ?md] h3
  have "md_calls (snd (translate_sequence_identifier registered_dp ?c
                      (snd (translate_sequence_identifier docstring_dp ?c empty_state))))
          = md_calls empty_state
              @ [(obj_id docstring_dp, identifier_of ?c), (obj_id docstring_dp, identifier_of ?c)]
        \<and> fst (translate_sequence_identifier registered_dp ?c
            (snd (translate_sequence_identifier docstring_dp ?c empty_state)))
          = Inr (case namespace_of ?c of
                     None \<Rightarrow> remdups (aliases ?md)
                   | Some n \<Rightarrow> filter (prefix (n @ '':'')) (remdups (aliases ?md)))"
    by blast
  with h1 h2 h4 show ?thesis by (simp add: empty_state_def)
qed

section \<open>The namespace filter\<close>

lemma cache_agrees_fst:
  assumes "cache_agrees dp s"
  shows "fst (translate_sequence_identifier dp cl s)
           = fst (translate_sequence_identifier_wrapped dp (identifier_of cl) (namespace_of cl) s)"
proof (cases "map_of (lru s) (obj_id dp, cl)")
  case None
  then show ?thesis by (rule translate_miss(1))
next
  case (Some v)
  then have "((obj_id dp, cl), v) \<in> set (lru s)" by (rule map_of_SomeD)
  with assms
  have "fst (translate_sequence_identifier_wrapped dp (identifier_of cl) (namespace_of cl) s)
          = Inr v"
    by (auto simp: cache_agrees_def list_all_iff)
  with translate_hit [OF Some] show ?thesis by simp
qed

lemma cache_agrees_step:
  assumes "cache_agrees dp s" and "dp' = dp \<or> obj_id dp' \<noteq> obj_id dp"
  shows "cache_agrees dp (snd (translate_sequence_identifier dp' cl s))"
proof -
  let ?ok = "\<lambda>(k, v). fst k = obj_id dp \<longrightarrow>
               fst (translate_sequence_identifier_wrapped dp
                      (identifier_of (snd k)) (namespace_of (snd k)) s) = Inr v"
  have indep: "cache_agrees dp t = list_all ?ok (lru t)" for t
    unfolding cache_agrees_def
    using wrapped_fst_indep [of dp _ _ t s] by simp
  from assms(1) have all: "\<forall>x \<in> set (lru s). ?ok x"
    by (simp add: indep list_all_iff)
  show ?thesis
  proof (cases "map_of (lru s) (obj_id dp', cl)")
    case (Some v)
    then have "((obj_id dp', cl), v) \<in> set (lru s)" by (rule map_of_SomeD)
    with all have "?ok ((obj_id dp', cl), v)" by blast
    with all translate_hit [OF Some] show ?thesis
      by (simp add: indep list_all_iff)
  next
    case None
    show ?thesis
    proof (cases "fst (translate_sequence_identifier_wrapped dp'
                         (identifier_of cl) (namespace_of cl) s)")
      case (Inl e)
      from translate_miss_fail [OF None Inl] all show ?thesis
        by (simp add: indep list_all_iff)
    next
      case (Inr v)
      from Inr assms(2) have new: "?ok ((obj_id dp', cl), v)" by auto
      have "\<forall>x \<in> set (butlast (lru s)). ?ok x"
        using all by (blast dest: in_set_butlastD)
      with new all translate_miss_ok [OF None Inr] show ?thesis
        by (simp add: indep list_all_iff)
    qed
  qed
qed

lemma cache_agrees_run:
  assumes "lru s = []" and "\<forall>c \<in> set cs. fst c = dp \<or> obj_id (fst c) \<noteq> obj_id dp"
  shows "cache_agrees dp (run cs s)"
proof -
  have "cache_agrees dp t \<Longrightarrow> \<forall>c \<in> set cs. fst c = dp \<or> obj_id (fst c) \<noteq> obj_id dp
          \<Longrightarrow> cache_agrees dp (run cs t)" for t
  proof (induction cs arbitrary: t)
    case Nil
    then show ?case by simp
  next
    case (Cons c cs)
    obtain dp' cl where c: "c = (dp', cl)" by (cases c) auto
    from Cons.prems(2) c have "dp' = dp \<or> obj_id dp' \<noteq> obj_id dp" by simp
    from cache_agrees_step [OF Cons.prems(1) this]
    have "cache_agrees dp (snd (translate_sequence_identifier dp' cl t))" .
    from Cons.IH [OF this] Cons.prems(2) show ?case by (simp add: c)
  qed
  moreover have "cache_agrees dp s"
    using assms(1) by (simp add: cache_agrees_def)
  ultimately show ?thesis using assms(2) by blast
qed

text \<open>
  Claim C3. In a state whose cache agrees with the backend, as every state does that is
  reached from an empty cache by calls on proxies that did not change
  (\<open>cache_agrees_run\<close>), let a call of \<open>translate_sequence_identifier\<close> with identifier
  \<open>i\<close> and namespace \<open>None\<close> return \<open>every\<close>. Then for each namespace \<open>ns\<close> a call with
  \<open>i\<close> and \<open>ns\<close> returns too, and its result holds exactly the elements of \<open>every\<close> of
  which \<open>ns\<close> followed by a colon is a prefix, compared character by character. Both
  results are free of duplicates, and \<open>every\<close> holds exactly the aliases of the metadata
  record. The two calls may pass their arguments in any way.
\<close>

theorem translate_namespace_filter:
  assumes "cache_agrees dp s"
    and "namespace_of c0 = None"
    and "identifier_of c1 = identifier_of c0" and "namespace_of c1 = Some ns"
    and "fst (translate_sequence_identifier dp c0 s) = Inr every"
  shows "\<exists>r md. fst (translate_sequence_identifier dp c1 s) = Inr r
           \<and> set r = {a \<in> set every. prefix (ns @ '':'') a}
           \<and> distinct r \<and> distinct every
           \<and> get_metadata dp (identifier_of c0) = Inr md \<and> set every = set (aliases md)"
proof -
  from assms(1,2,5)
  have "fst (translate_sequence_identifier_wrapped dp (identifier_of c0) None s) = Inr every"
    by (simp add: cache_agrees_fst)
  then obtain md where md: "get_metadata dp (identifier_of c0) = Inr md"
    and ev: "every = remdups (aliases md)"
    by (auto simp: wrapped_fst split: sum.splits)
  let ?r = "filter (prefix (ns @ '':'')) (remdups (aliases md))"
  have "fst (translate_sequence_identifier dp c1 s) = Inr ?r"
    using assms(1,3,4) md by (simp add: cache_agrees_fst wrapped_fst)
  moreover have "set ?r = {a \<in> set every. prefix (ns @ '':'') a}"
    using ev by auto
  moreover have "distinct ?r" "distinct every" "set every = set (aliases md)"
    using ev by simp_all
  ultimately show ?thesis using md by blast
qed

theorem translate_namespace_filter_witness:
  "cache_agrees docstring_dp empty_state
   \<and> namespace_of (Pos1 ''NM_000551.3'') = None
   \<and> identifier_of (PosKw ''NM_000551.3'' (Some ''refseq'')) = identifier_of (Pos1 ''NM_000551.3'')
   \<and> namespace_of (PosKw ''NM_000551.3'' (Some ''refseq'')) = Some ''refseq''
   \<and> fst (translate_sequence_identifier docstring_dp (Pos1 ''NM_000551.3'') empty_state)
       = Inr [''RefSeq:NM_000551.3'', ''ga4gh:SQ.v_QTc1p-MUYdgrRv4LMT6ByXIOsdw3C_'',
              ''gi:319655736'', ''refseq:NM_000551.3'']
   \<and> fst (translate_sequence_identifier docstring_dp
            (PosKw ''NM_000551.3'' (Some ''refseq'')) empty_state)
       = Inr [''refseq:NM_000551.3'']"
proof -
  let ?every = "[''RefSeq:NM_000551.3'', ''ga4gh:SQ.v_QTc1p-MUYdgrRv4LMT6ByXIOsdw3C_'',
              ''gi:319655736'', ''refseq:NM_000551.3'']"
  let ?c0 = "Pos1 ''NM_000551.3''"
  let ?c1 = "PosKw ''NM_000551.3'' (Some ''refseq'')"
  have h1: "cache_agrees docstring_dp empty_state"
    by (simp add: cache_agrees_def empty_state_def)
  have n0: "namespace_of ?c0 = None" by simp
  have i1: "identifier_of ?c1 = identifier_of ?c0" by simp
  have n1: "namespace_of ?c1 = Some ''refseq''" by simp
  have m: "map_of (lru empty_state) (obj_id docstring_dp, ?c0) = None"
    by (simp add: empty_state_def)
  have h2: "fst (translate_sequence_identifier docstring_dp ?c0 empty_state) = Inr ?every"
    unfolding translate_miss(1) [OF m]
    by (simp add: wrapped_fst docstring_dp_def demo_md_def)
  from translate_namespace_filter [OF h1 n0 i1 n1 h2]
  obtain r where r: "fst (translate_sequence_identifier docstring_dp ?c1 empty_state) = Inr r"
    and s: "set r = {a \<in> set ?every. prefix (''refseq'' @ '':'') a}" and d: "distinct r"
    by blast
  have e: "{a \<in> set ?every. prefix (''refseq'' @ '':'') a} = {''refseq:NM_000551.3''}"
    by auto
  from distinct_card [OF d] s e have "length r = 1" by simp
  then obtain y where y: "r = [y]" by (cases r) auto
  with s e have "r = [''refseq:NM_000551.3'']" by simp
  with h1 n0 i1 n1 h2 r show ?thesis by simp
qed

section \<open>The REST adapter\<close>




section \<open>The local adapter on an unknown identifier\<close>

text \<open>
  Claim C6 says that \<open>get_metadata\<close> and \<open>get_sequence\<close> fail with \<open>KeyError\<close> on an
  identifier unknown to the backend, as the docstrings of both methods do. The local
  adapter splits the coerced identifier with \<open>split(":", 2)\<close> and unpacks the parts into
  two names, so an identifier with two colons raises the \<open>ValueError\<close> of unpacking
  before any row is looked up. The store has no alias for the identifier below, and
  \<open>get_sequence\<close> fails with \<open>KeyError\<close> on it; \<open>get_metadata\<close> fails with
  \<open>ValueError\<close>.
\<close>

theorem local_get_metadata_two_colons:
  "get_metadata (SeqRepoDataProxy 0 demo_im demo_sr) ''ncbi:refseq:NM_999999.9''
     = Inl (ValueError ''too many values to unpack (expected 2)'')
   \<and> find_aliases demo_sr ''ncbi'' ''refseq:NM_999999.9'' = Inr []
   \<and> get_sequence (SeqRepoDataProxy 0 demo_im demo_sr) ''ncbi:refseq:NM_999999.9'' None None
     = Inl (KeyError ''ncbi:refseq:NM_999999.9'')"
  by (simp add: SeqRepoDataProxy_def SeqRepoDataProxyBase_get_metadata_def
        SeqRepoDataProxyBase_get_sequence_def
        SeqRepoDataProxy_priv_get_metadata_def SeqRepoDataProxy_priv_get_sequence_def
        demo_im_def demo_sr_def demo_rows_def numeral_2_eq_2)

section \<open>Failures that cross the contract\<close>

text \<open>
  Claim C9 as stated fails. No method of the adapters handles an exception of
  \<open>requests.get\<close>: with no service listening, \<open>get_metadata\<close> and \<open>get_sequence\<close> of the
  REST adapter raise the \<open>ConnectionError\<close> of the transport, which is none of the four
  kinds.
\<close>

theorem transport_failure_counterexample:
  "get_metadata (SeqRepoRESTDataProxy 2 unreachable ''http://localhost:5000/seqrepo'')
      ''NM_000551.3'' = Inl (ConnectionError ''Connection refused'')
   \<and> get_sequence (SeqRepoRESTDataProxy 2 unreachable ''http://localhost:5000/seqrepo'')
      ''NM_000551.3'' None None = Inl (ConnectionError ''Connection refused'')
   \<and> kind_of (ConnectionError ''Connection refused'') = None"
  by (simp add: rest_get_sequence rest_get_metadata unreachable_def)

lemma str_split_qualified:
  assumes "CHR '':'' \<notin> set ns" "CHR '':'' \<notin> set a"
  shows "str_split CHR '':'' 2 (ns @ '':'' @ a) = [ns, a]"
proof -
  have "takeWhile (\<lambda>c. c \<noteq> CHR '':'') (ns @ '':'' @ a) = ns"
    using assms(1) by (induction ns) auto
  moreover have "dropWhile (\<lambda>c. c \<noteq> CHR '':'') (ns @ '':'' @ a) = '':'' @ a"
    using assms(1) by (induction ns) auto
  ultimately show ?thesis
    using assms(2) by (simp add: numeral_2_eq_2)
qed

lemma local_get_metadata_missing_row:
  assumes "coerce_namespace im i = Inr (ns @ '':'' @ a)"
    and "CHR '':'' \<notin> set ns" "CHR '':'' \<notin> set a"
    and "find_aliases sr ns a = Inr []"
  shows "get_metadata (SeqRepoDataProxy oid im sr) i = Inl (KeyError i)"
  using assms(1,4) str_split_qualified [OF assms(2,3)]
  by (simp add: SeqRepoDataProxy_def SeqRepoDataProxyBase_get_metadata_def
        SeqRepoDataProxy_priv_get_metadata_def)

lemma local_get_metadata_coerce_error:
  assumes "coerce_namespace im i = Inl e"
  shows "get_metadata (SeqRepoDataProxy oid im sr) i = Inl e"
  using assms
  by (simp add: SeqRepoDataProxy_def SeqRepoDataProxyBase_get_metadata_def
        SeqRepoDataProxy_priv_get_metadata_def)

text \<open>
  Claim C9, as amended. The adapters translate these failure shapes: the missing row of
  the local index (for an identifier that coerces to a namespace, a colon and an alias)
  and the status 404 become \<open>KeyError(identifier)\<close>, and every other status from 400 to
  599 becomes the \<open>HTTPError\<close> of \<open>raise_for_status\<close> carrying the status. Nothing else
  is translated. On a response that \<open>requests.get\<close> delivered, a failure of the REST
  adapter is one of these two, or, for \<open>get_metadata\<close> on a status outside 400 to 599,
  the exception of \<open>resp.json()\<close>, the \<open>KeyError('aliases')\<close> of a decoded dict without
  that key, or the \<open>TypeError\<close> of a decoded value that is no dict or has no iterable
  aliases. An exception raised by \<open>requests.get\<close> itself or by \<open>coerce_namespace\<close>
  passes unchanged, and \<open>get_sequence\<close> of the local adapter is \<open>sr.fetch\<close>, exceptions
  included.
\<close>

theorem adapter_failures:
  "(rget (SeqRepoRESTDataProxy_base_url base_url @ ''metadata/'' @ i) [] = Inl e \<longrightarrow>
      get_metadata (SeqRepoRESTDataProxy oid rget base_url) i = Inl e)
   \<and> (rget (SeqRepoRESTDataProxy_base_url base_url @ ''sequence/'' @ i)
          [(''start'', st), (''end'', en)] = Inl e \<longrightarrow>
      get_sequence (SeqRepoRESTDataProxy oid rget base_url) i st en = Inl e)
   \<and> (rget (SeqRepoRESTDataProxy_base_url base_url @ ''metadata/'' @ i) [] = Inr rm
        \<and> status_code rm = 404 \<longrightarrow>
      get_metadata (SeqRepoRESTDataProxy oid rget base_url) i = Inl (KeyError i))
   \<and> (rget (SeqRepoRESTDataProxy_base_url base_url @ ''sequence/'' @ i)
          [(''start'', st), (''end'', en)] = Inr rs
        \<and> status_code rs = 404 \<longrightarrow>
      get_sequence (SeqRepoRESTDataProxy oid rget base_url) i st en = Inl (KeyError i))
   \<and> (rget (SeqRepoRESTDataProxy_base_url base_url @ ''metadata/'' @ i) [] = Inr rm
        \<and> 400 \<le> status_code rm \<and> status_code rm < 600 \<and> status_code rm \<noteq> 404 \<longrightarrow>
      get_metadata (SeqRepoRESTDataProxy oid rget base_url) i = Inl (HTTPError (status_code rm)))
   \<and> (rget (SeqRepoRESTDataProxy_base_url base_url @ ''sequence/'' @ i)
          [(''start'', st), (''end'', en)] = Inr rs
        \<and> 400 \<le> status_code rs \<and> status_code rs < 600 \<and> status_code rs \<noteq> 404 \<longrightarrow>
      get_sequence (SeqRepoRESTDataProxy oid rget base_url) i st en
        = Inl (HTTPError (status_code rs)))
   \<and> (rget (SeqRepoRESTDataProxy_base_url base_url @ ''metadata/'' @ i) [] = Inr rm
        \<and> get_metadata (SeqRepoRESTDataProxy oid rget base_url) i = Inl e' \<longrightarrow>
      (status_code rm = 404 \<and> e' = KeyError i)
      \<or> (400 \<le> status_code rm \<and> status_code rm < 600 \<and> status_code rm \<noteq> 404
           \<and> e' = HTTPError (status_code rm))
      \<or> (\<not> (400 \<le> status_code rm \<and> status_code rm < 600)
           \<and> (json rm = Inl e'
                \<or> (json rm = Inr NoAliases \<and> e' = KeyError ''aliases'')
                \<or> ((json rm = Inr NotADict \<or> json rm = Inr AliasesNotIterable)
                     \<and> (\<exists>m. e' = TypeError m)))))
   \<and> (rget (SeqRepoRESTDataProxy_base_url base_url @ ''sequence/'' @ i)
          [(''start'', st), (''end'', en)] = Inr rs
        \<and> get_sequence (SeqRepoRESTDataProxy oid rget base_url) i st en = Inl e' \<longrightarrow>
      (status_code rs = 404 \<and> e' = KeyError i)
      \<or> (400 \<le> status_code rs \<and> status_code rs < 600 \<and> status_code rs \<noteq> 404
           \<and> e' = HTTPError (status_code rs)))
   \<and> (coerce_namespace im i = Inr (ns @ '':'' @ a) \<and> CHR '':'' \<notin> set ns \<and> CHR '':'' \<notin> set a
        \<and> find_aliases sr ns a = Inr [] \<longrightarrow>
      get_metadata (SeqRepoDataProxy oid im sr) i = Inl (KeyError i))
   \<and> (coerce_namespace im i = Inl e \<longrightarrow> get_metadata (SeqRepoDataProxy oid im sr) i = Inl e)
   \<and> get_sequence (SeqRepoDataProxy oid im sr) i st en = fetch sr i st en"
proof (intro conjI impI)
  show "get_sequence (SeqRepoDataProxy oid im sr) i st en = fetch sr i st en"
    by (simp add: SeqRepoDataProxy_def SeqRepoDataProxyBase_get_sequence_def
          SeqRepoDataProxy_priv_get_sequence_def)
next
  assume "coerce_namespace im i = Inr (ns @ '':'' @ a) \<and> CHR '':'' \<notin> set ns \<and> CHR '':'' \<notin> set a
        \<and> find_aliases sr ns a = Inr []"
  then show "get_metadata (SeqRepoDataProxy oid im sr) i = Inl (KeyError i)"
    by (intro local_get_metadata_missing_row [of im i ns a sr]) simp_all
next
  assume "coerce_namespace im i = Inl e"
  then show "get_metadata (SeqRepoDataProxy oid im sr) i = Inl e"
    by (rule local_get_metadata_coerce_error)
next
  assume "rget (SeqRepoRESTDataProxy_base_url base_url @ ''metadata/'' @ i) [] = Inr rm
        \<and> get_metadata (SeqRepoRESTDataProxy oid rget base_url) i = Inl e'"
  then show "(status_code rm = 404 \<and> e' = KeyError i)
      \<or> (400 \<le> status_code rm \<and> status_code rm < 600 \<and> status_code rm \<noteq> 404
           \<and> e' = HTTPError (status_code rm))
      \<or> (\<not> (400 \<le> status_code rm \<and> status_code rm < 600)
           \<and> (json rm = Inl e'
                \<or> (json rm = Inr NoAliases \<and> e' = KeyError ''aliases'')
                \<or> ((json rm = Inr NotADict \<or> json rm = Inr AliasesNotIterable)
                     \<and> (\<exists>m. e' = TypeError m))))"
    by (auto simp: rest_get_metadata split: if_splits sum.splits decoded.splits)
qed (auto simp: rest_get_sequence rest_get_metadata split: if_splits)

theorem adapter_failures_witness:
  "coerce_namespace demo_im ''refseq:NM_999999.9'' = Inr (''refseq'' @ '':'' @ ''NM_999999.9'')
   \<and> CHR '':'' \<notin> set ''refseq'' \<and> CHR '':'' \<notin> set ''NM_999999.9''
   \<and> find_aliases demo_sr ''refseq'' ''NM_999999.9'' = Inr []
   \<and> get_metadata (SeqRepoDataProxy 0 demo_im demo_sr) ''refseq:NM_999999.9''
       = Inl (KeyError ''refseq:NM_999999.9'')
   \<and> unreachable (SeqRepoRESTDataProxy_base_url ''http://localhost:5000/seqrepo''
                    @ ''sequence/'' @ ''NM_000551.3'') [(''start'', Some 0), (''end'', Some 10)]
       = Inl (ConnectionError ''Connection refused'')
   \<and> get_sequence (SeqRepoRESTDataProxy 2 unreachable ''http://localhost:5000/seqrepo'')
        ''NM_000551.3'' (Some 0) (Some 10) = Inl (ConnectionError ''Connection refused'')
   \<and> status_code \<lparr>status_code = 404, resp_text = ''Not Found'',
                    json = Inl (ValueError ''Expecting value'')\<rparr> = 404
   \<and> get_metadata (SeqRepoRESTDataProxy 2 demo_server ''http://localhost:5000/seqrepo'')
        ''no-such-id'' = Inl (KeyError ''no-such-id'')
   \<and> get_sequence (SeqRepoRESTDataProxy 2 demo_server ''http://localhost:5000/seqrepo'')
        ''crash'' None None = Inl (HTTPError 500)"
proof -
  let ?base = "''http://localhost:5000/seqrepo''"
  let ?crash = "\<lparr>status_code = 500, resp_text = ''Internal Server Error'',
                 json = Inl (ValueError ''Expecting value'')\<rparr>"
  let ?missing = "\<lparr>status_code = 404, resp_text = ''Not Found'',
                 json = Inl (ValueError ''Expecting value'')\<rparr>"
  have h1: "coerce_namespace demo_im ''refseq:NM_999999.9''
              = Inr (''refseq'' @ '':'' @ ''NM_999999.9'')"
    by (simp add: demo_im_def)
  have h2: "CHR '':'' \<notin> set ''refseq''" "CHR '':'' \<notin> set ''NM_999999.9''"
    by simp_all
  have h3: "find_aliases demo_sr ''refseq'' ''NM_999999.9'' = Inr []"
    by (simp add: demo_sr_def demo_rows_def)
  have h4: "unreachable (SeqRepoRESTDataProxy_base_url ?base
                    @ ''sequence/'' @ ''NM_000551.3'') [(''start'', Some 0), (''end'', Some 10)]
              = Inl (ConnectionError ''Connection refused'')"
    by (simp add: unreachable_def)
  have h5: "demo_server (SeqRepoRESTDataProxy_base_url ?base @ ''metadata/'' @ ''no-such-id'') []
              = Inr ?missing"
    unfolding demo_urls by (simp add: demo_server_def)
  have h6: "status_code ?missing = 404" by simp
  have h7: "demo_server (SeqRepoRESTDataProxy_base_url ?base @ ''sequence/'' @ ''crash'')
              [(''start'', None), (''end'', None)] = Inr ?crash"
    unfolding demo_urls by (simp add: demo_server_def)
  have h8: "400 \<le> status_code ?crash \<and> status_code ?crash < 600 \<and> status_code ?crash \<noteq> 404"
    by simp
  from adapter_failures
         [where im = demo_im and sr = demo_sr and i = "''refseq:NM_999999.9''"
            and ns = "''refseq''" and a = "''NM_999999.9''" and oid = 0]
       h1 h2 h3
  have c1: "get_metadata (SeqRepoDataProxy 0 demo_im demo_sr) ''refseq:NM_999999.9''
              = Inl (KeyError ''refseq:NM_999999.9'')"
    by blast
  from adapter_failures
         [where rget = unreachable and base_url = ?base
            and i = "''NM_000551.3''" and st = "Some 0" and en = "Some 10"
            and e = "ConnectionError ''Connection refused''" and oid = 2]
       h4
  have c2: "get_sequence (SeqRepoRESTDataProxy 2 unreachable ?base)
        ''NM_000551.3'' (Some 0) (Some 10) = Inl (ConnectionError ''Connection refused'')"
    by blast
  from adapter_failures
         [where rget = demo_server and base_url = ?base and i = "''no-such-id''"
            and rm = ?missing and oid = 2]
       h5 h6
  have c3: "get_metadata (SeqRepoRESTDataProxy 2 demo_server ?base) ''no-such-id''
              = Inl (KeyError ''no-such-id'')"
    by blast
  from adapter_failures
         [where rget = demo_server and base_url = ?base and i = "''crash''"
            and st = None and en = None and rs = ?crash and oid = 2]
       h7 h8
  have c4: "get_sequence (SeqRepoRESTDataProxy 2 demo_server ?base) ''crash'' None None
              = Inl (HTTPError (status_code ?crash))"
    by blast
  from h1 h2 h3 h4 h6 c1 c2 c3 c4 show ?thesis by simp
qed

end
